theory Spec2Isabelle
  imports Complex_Main
begin

section \<open>Python values used by the telemetry script\<close>

text \<open>
  The script \<^verbatim>\<open>mavsdk_datafetch.py\<close> keeps all of its state in two module-level
  objects, the dictionary \<^verbatim>\<open>telemetry_data\<close> and the list \<^verbatim>\<open>error_list\<close>.
  A dictionary value is a string, the integer that \<^verbatim>\<open>log_to_csv\<close> substitutes for
  \<^verbatim>\<open>"N/A"\<close>, or the nested health dictionary, whose values are strings.
  Python dictionaries keep insertion order, so a dictionary is an association list with
  distinct keys.
\<close>

datatype pyval = PStr string | PInt int | PDict "(string \<times> string) list"

type_synonym dict = "(string \<times> pyval) list"

text \<open>\<^verbatim>\<open>d.get(k)\<close>: the value stored under \<open>k\<close>, if any.\<close>

definition dict_get :: "(string \<times> 'v) list \<Rightarrow> string \<Rightarrow> 'v option" where
  "dict_get d k = map_of d k"

text \<open>\<^verbatim>\<open>d[k] = v\<close>: an existing key keeps its position, a new key goes to the end.\<close>

fun dict_set :: "(string \<times> 'v) list \<Rightarrow> string \<Rightarrow> 'v \<Rightarrow> (string \<times> 'v) list" where
  "dict_set [] k v = [(k, v)]"
| "dict_set ((k', v') # d) k v = (if k' = k then (k, v) # d else (k', v') # dict_set d k v)"

text \<open>\<^verbatim>\<open>d.pop(k, default)\<close>: the value removed (or the default) and the remaining dictionary.\<close>

definition dict_pop :: "(string \<times> 'v) list \<Rightarrow> string \<Rightarrow> 'v \<Rightarrow> 'v \<times> (string \<times> 'v) list" where
  "dict_pop d k dflt =
     (case map_of d k of None \<Rightarrow> (dflt, d) | Some v \<Rightarrow> (v, filter (\<lambda>kv. fst kv \<noteq> k) d))"

text \<open>\<^verbatim>\<open>d.copy()\<close>: a shallow copy. Values are immutable here, so the copy is the same value;
  the nested health dictionary is never mutated in place by the script (it is replaced as
  a whole), so sharing it is not observable.\<close>

definition dict_copy :: "(string \<times> 'v) list \<Rightarrow> (string \<times> 'v) list" where
  "dict_copy d = d"

section \<open>String operations\<close>

text \<open>\<^verbatim>\<open>s.startswith(p)\<close>.\<close>

definition startswith :: "string \<Rightarrow> string \<Rightarrow> bool" where
  "startswith s p = (take (length p) s = p)"

text \<open>
  \<^verbatim>\<open>s.replace(old, new)\<close>: every non-overlapping occurrence of \<open>old\<close>, found from left
  to right, is replaced. With the empty \<open>old\<close> Python puts \<open>new\<close> before every character
  and at the end.
\<close>

function replace :: "string \<Rightarrow> string \<Rightarrow> string \<Rightarrow> string" where
  "replace [] old new = (if old = [] then new else [])"
| "replace (c # cs) old new =
     (if old = [] then new @ c # replace cs old new
      else if startswith (c # cs) old then new @ replace (drop (length old) (c # cs)) old new
      else c # replace cs old new)"
  by pat_completeness auto
termination
  by (relation "measure (\<lambda>(s, old, new). length s)") (auto simp: startswith_def)

text \<open>\<^verbatim>\<open>s.lower()\<close> on ASCII text: the letters A to Z move to a to z.\<close>

definition lower_char :: "char \<Rightarrow> char" where
  "lower_char c =
     (case map_of (zip ''ABCDEFGHIJKLMNOPQRSTUVWXYZ'' ''abcdefghijklmnopqrstuvwxyz'') c of
        None \<Rightarrow> c | Some l \<Rightarrow> l)"

definition lower :: "string \<Rightarrow> string" where
  "lower s = map lower_char s"

text \<open>\<^verbatim>\<open>f"{s:<30}"\<close>: left-aligned in a field of the given width, padded with spaces.\<close>

definition ljust :: "nat \<Rightarrow> string \<Rightarrow> string" where
  "ljust w s = s @ replicate (w - length s) (CHR '' '')"

section \<open>The error log\<close>

definition MAX_ERRORS_DISPLAYED :: nat where
  "MAX_ERRORS_DISPLAYED = 5"

text \<open>
  \<^verbatim>\<open>add_error(error_msg)\<close>. The time stamp \<open>ts\<close> is what
  \<^verbatim>\<open>datetime.now().strftime("%H:%M:%S")\<close> returns when the call is made; the clock is
  the environment's, so it is an argument.
\<close>

definition add_error :: "string \<Rightarrow> string \<Rightarrow> string list \<Rightarrow> string list" where
  "add_error ts error_msg error_list =
     (let error_list' = error_list @ [''['' @ ts @ ''] '' @ error_msg]
      in if length error_list' > MAX_ERRORS_DISPLAYED then tl error_list' else error_list')"

text \<open>\<^verbatim>\<open>error_list[-MAX_ERRORS_DISPLAYED:]\<close>, the slice \<^verbatim>\<open>display_loop\<close> prints.\<close>

definition recent_errors :: "string list \<Rightarrow> string list" where
  "recent_errors error_list = drop (length error_list - MAX_ERRORS_DISPLAYED) error_list"

text \<open>A sequence of \<^verbatim>\<open>add_error\<close> calls, each with its time stamp and message.\<close>

fun add_errors :: "(string \<times> string) list \<Rightarrow> string list \<Rightarrow> string list" where
  "add_errors [] error_list = error_list"
| "add_errors ((ts, msg) # es) error_list = add_errors es (add_error ts msg error_list)"

definition error_entry :: "string \<times> string \<Rightarrow> string" where
  "error_entry e = ''['' @ fst e @ ''] '' @ snd e"

section \<open>Formatting numbers\<close>

text \<open>
  A Python \<^verbatim>\<open>float\<close> is a finite binary fraction, a NaN or an infinity. Every finite
  float is a rational number, and \<^verbatim>\<open>f"{x:.2f}"\<close> rounds that exact value to the
  given number of fraction digits, ties to even. The negative zero is not represented.
\<close>

datatype pyfloat = Finite rat | NaN | Inf bool

text \<open>
  The decimal digits of a non-negative integer. The numbers are kept as integers, which
  the kernel evaluates in binary.
\<close>

definition digit_char :: "int \<Rightarrow> char" where
  "digit_char n = ''0123456789'' ! nat (n mod 10)"

function str_nat :: "int \<Rightarrow> string" where
  "str_nat n = (if n < 10 then [digit_char n] else str_nat (n div 10) @ [digit_char n])"
  by pat_completeness auto
termination
  by (relation "measure nat") auto

declare str_nat.simps [simp del]

text \<open>\<^verbatim>\<open>str(i)\<close> for an integer.\<close>

definition str_int :: "int \<Rightarrow> string" where
  "str_int i = (if i < 0 then ''-'' @ str_nat (- i) else str_nat i)"

definition round_half_even :: "rat \<Rightarrow> int" where
  "round_half_even x =
     (let f = \<lfloor>x\<rfloor>; r = x - of_int f
      in if r < 1 / 2 then f else if 1 / 2 < r then f + 1 else if even f then f else f + 1)"

definition zfill :: "nat \<Rightarrow> string \<Rightarrow> string" where
  "zfill w s = replicate (w - length s) (CHR ''0'') @ s"

text \<open>\<^verbatim>\<open>f"{x:.df}"\<close> for a float \<open>x\<close> and \<open>d\<close> fraction digits.\<close>

fun fmt_fixed :: "nat \<Rightarrow> pyfloat \<Rightarrow> string" where
  "fmt_fixed d (Finite x) =
     (let n = round_half_even (\<bar>x\<bar> * 10 ^ d)
      in (if x < 0 then ''-'' else []) @ str_nat (n div 10 ^ d) @
         (if d = 0 then [] else ''.'' @ zfill d (str_nat (n mod 10 ^ d))))"
| "fmt_fixed d NaN = ''nan''"
| "fmt_fixed d (Inf negative) = (if negative then ''-inf'' else ''inf'')"

text \<open>\<^verbatim>\<open>str(v)\<close> for a dictionary value, as an f-string or the csv writer renders it.\<close>

fun py_str :: "pyval \<Rightarrow> string" where
  "py_str (PStr s) = s"
| "py_str (PInt i) = str_int i"
| "py_str (PDict d) =
     ''{'' @ concat (map (\<lambda>i. (if i = 0 then [] else '', '') @
                               [CHR 0x27] @ fst (d ! i) @ [CHR 0x27] @ '': '' @
                               [CHR 0x27] @ snd (d ! i) @ [CHR 0x27]) [0..<length d]) @ ''}''"

section \<open>The shared telemetry dictionary\<close>

definition initial_health :: "(string \<times> string) list" where
  "initial_health =
     [(''Accelerometer calibration'', ''N/A''),
      (''Armable'', ''N/A''),
      (''Global position'', ''N/A''),
      (''Gyrometer calibration'', ''N/A''),
      (''Home position'', ''N/A''),
      (''Local position'', ''N/A''),
      (''Magnetometer calibration'', ''N/A'')]"

definition initial_telemetry_data :: dict where
  "initial_telemetry_data =
     [(''lat'', PStr ''N/A''),
      (''lon'', PStr ''N/A''),
      (''alt'', PStr ''N/A''),
      (''abs_alt'', PStr ''N/A''),
      (''speed'', PStr ''N/A''),
      (''roll'', PStr ''N/A''),
      (''pitch'', PStr ''N/A''),
      (''yaw'', PStr ''N/A''),
      (''voltage'', PStr ''N/A''),
      (''battery'', PStr ''N/A''),
      (''gps_fix'', PStr ''N/A''),
      (''satellites'', PStr ''N/A''),
      (''flight_mode'', PStr ''N/A''),
      (''armed'', PStr ''N/A''),
      (''rc_signal'', PStr ''N/A''),
      (''health'', PDict initial_health)]"

text \<open>A run of assignments \<^verbatim>\<open>telemetry_data[k] = v\<close>, in program order.\<close>

definition assign :: "dict \<Rightarrow> (string \<times> pyval) list \<Rightarrow> dict" where
  "assign td kvs = foldl (\<lambda>d kv. dict_set d (fst kv) (snd kv)) td kvs"

section \<open>Telemetry items and the loop bodies of the eight fetchers\<close>

text \<open>
  The records the MAVSDK subscriptions deliver. Only the attributes the script reads are
  kept. The enumerations \<^verbatim>\<open>FixType\<close> and \<^verbatim>\<open>FlightMode\<close> belong to the MAVSDK
  library; an item carries the text \<^verbatim>\<open>str(...)\<close> returns for the value. An RC status
  whose strength cannot be formatted carries \<open>None\<close>.
\<close>

datatype position =
  Position (latitude_deg: pyfloat) (longitude_deg: pyfloat)
           (absolute_altitude_m: pyfloat) (relative_altitude_m: pyfloat)

datatype attitude = Attitude (roll_deg: pyfloat) (pitch_deg: pyfloat) (yaw_deg: pyfloat)

datatype battery = Battery (voltage_v: pyfloat) (remaining_percent: pyfloat)

datatype gps_info = GpsInfo (fix_type: string) (num_satellites: int)

datatype rc_status = RcStatus (signal_strength_percent: "pyfloat option")

datatype health =
  Health (is_gyrometer_calibration_ok: bool) (is_accelerometer_calibration_ok: bool)
         (is_magnetometer_calibration_ok: bool) (is_local_position_ok: bool)
         (is_global_position_ok: bool) (is_home_position_ok: bool) (is_armable: bool)

definition position_updates :: "position \<Rightarrow> (string \<times> pyval) list" where
  "position_updates pos =
     [(''lat'', PStr (fmt_fixed 6 (latitude_deg pos))),
      (''lon'', PStr (fmt_fixed 6 (longitude_deg pos))),
      (''alt'', PStr (fmt_fixed 2 (relative_altitude_m pos))),
      (''abs_alt'', PStr (fmt_fixed 2 (absolute_altitude_m pos)))]"

definition attitude_updates :: "attitude \<Rightarrow> (string \<times> pyval) list" where
  "attitude_updates att =
     [(''roll'', PStr (fmt_fixed 2 (roll_deg att))),
      (''pitch'', PStr (fmt_fixed 2 (pitch_deg att))),
      (''yaw'', PStr (fmt_fixed 2 (yaw_deg att)))]"

text \<open>The product \<^verbatim>\<open>batt.remaining_percent * 1\<close> is the float itself.\<close>

definition battery_updates :: "battery \<Rightarrow> (string \<times> pyval) list" where
  "battery_updates batt =
     [(''voltage'', PStr (fmt_fixed 2 (voltage_v batt))),
      (''battery'', PStr (fmt_fixed 1 (remaining_percent batt)))]"

definition gps_updates :: "gps_info \<Rightarrow> (string \<times> pyval) list" where
  "gps_updates gps =
     [(''gps_fix'', PStr (replace (fix_type gps) ''FIX_TYPE_'' [])),
      (''satellites'', PStr (str_int (num_satellites gps)))]"

definition flight_mode_updates :: "string \<Rightarrow> (string \<times> pyval) list" where
  "flight_mode_updates mode = [(''flight_mode'', PStr (replace mode ''FLIGHT_MODE_'' []))]"

definition armed_updates :: "bool \<Rightarrow> (string \<times> pyval) list" where
  "armed_updates armed = [(''armed'', PStr (if armed then ''Yes'' else ''No''))]"

text \<open>The inner \<^verbatim>\<open>try\<close> of \<^verbatim>\<open>fetch_rc_signal\<close> stores \<^verbatim>\<open>"N/A"\<close> when formatting raises.\<close>

definition rc_updates :: "rc_status \<Rightarrow> (string \<times> pyval) list" where
  "rc_updates rc =
     [(''rc_signal'',
       PStr (case signal_strength_percent rc of
               Some x \<Rightarrow> fmt_fixed 1 x
             | None \<Rightarrow> ''N/A''))]"

definition ok_fail :: "bool \<Rightarrow> string" where
  "ok_fail b = (if b then ''OK'' else ''FAIL'')"

definition health_dict :: "health \<Rightarrow> (string \<times> string) list" where
  "health_dict h =
     [(''Accelerometer calibration'', ok_fail (is_accelerometer_calibration_ok h)),
      (''Gyrometer calibration'', ok_fail (is_gyrometer_calibration_ok h)),
      (''Magnetometer calibration'', ok_fail (is_magnetometer_calibration_ok h)),
      (''Global position'', ok_fail (is_global_position_ok h)),
      (''Home position'', ok_fail (is_home_position_ok h)),
      (''Local position'', ok_fail (is_local_position_ok h)),
      (''Armable'', ok_fail (is_armable h))]"

definition health_updates :: "health \<Rightarrow> (string \<times> pyval) list" where
  "health_updates h = [(''health'', PDict (health_dict h))]"

text \<open>An item of any of the eight subscriptions, and the assignments its loop body makes.\<close>

datatype item =
  PositionItem position
| AttitudeItem attitude
| BatteryItem battery
| GpsItem gps_info
| FlightModeItem string
| ArmedItem bool
| RcItem rc_status
| HealthItem health

fun updates :: "item \<Rightarrow> (string \<times> pyval) list" where
  "updates (PositionItem pos) = position_updates pos"
| "updates (AttitudeItem att) = attitude_updates att"
| "updates (BatteryItem batt) = battery_updates batt"
| "updates (GpsItem gps) = gps_updates gps"
| "updates (FlightModeItem mode) = flight_mode_updates mode"
| "updates (ArmedItem armed) = armed_updates armed"
| "updates (RcItem rc) = rc_updates rc"
| "updates (HealthItem h) = health_updates h"

section \<open>The process state\<close>

text \<open>
  What the tasks do to the outside world is kept as a trace: the calls that suspend a task
  (\<^verbatim>\<open>asyncio.sleep\<close>, opening a subscription, connecting), the tasks created, the
  screens printed and the rows handed to the csv writer.
\<close>

datatype category =
  PositionCat | AttitudeCat | BatteryCat | GpsCat | FlightModeCat | ArmedCat | RcCat | HealthCat

datatype event =
  EvSleep nat
| EvConnect string
| EvSubscribe category
| EvCreateTask string
| EvPrint string
| EvScreen "string list"
| EvWriteHeader "string list"
| EvWriteRow "string list"

text \<open>
  The module-level state: the two shared objects, the log file name and the file system
  below \<^verbatim>\<open>flight_logs\<close> (a file is the list of its rows, a row the list of its fields
  before csv quoting).
\<close>

record world =
  telemetry_data :: dict
  error_list :: "string list"
  filename :: string
  files :: "string \<rightharpoonup> string list list"
  trace :: "event list"

text \<open>
  Importing the module: \<^verbatim>\<open>telemetry_data\<close> and \<^verbatim>\<open>error_list\<close> are created, and the
  file name is built from \<^verbatim>\<open>datetime.now().strftime("%Y%m%d_%H%M%S")\<close> at that moment.
\<close>

definition module_init :: "string \<Rightarrow> (string \<rightharpoonup> string list list) \<Rightarrow> world" where
  "module_init log_start_time fs =
     \<lparr>telemetry_data = initial_telemetry_data,
      error_list = [],
      filename = ''flight_logs/'' @ ''telemetry_log_'' @ log_start_time @ ''.csv'',
      files = fs,
      trace = []\<rparr>"

definition emit :: "event \<Rightarrow> world \<Rightarrow> world" where
  "emit ev w = w\<lparr>trace := trace w @ [ev]\<rparr>"

definition sleep :: "nat \<Rightarrow> world \<Rightarrow> world" where
  "sleep n w = emit (EvSleep n) w"

definition record_error :: "string \<Rightarrow> string \<Rightarrow> world \<Rightarrow> world" where
  "record_error ts error_msg w = w\<lparr>error_list := add_error ts error_msg (error_list w)\<rparr>"

section \<open>The stream fetchers\<close>

definition error_label :: "category \<Rightarrow> string" where
  "error_label c =
     (case c of
        PositionCat \<Rightarrow> ''Position fetch error: ''
      | AttitudeCat \<Rightarrow> ''Attitude fetch error: ''
      | BatteryCat \<Rightarrow> ''Battery fetch error: ''
      | GpsCat \<Rightarrow> ''GPS fetch error: ''
      | FlightModeCat \<Rightarrow> ''Flight mode fetch error: ''
      | ArmedCat \<Rightarrow> ''Armed status fetch error: ''
      | RcCat \<Rightarrow> ''RC signal fetch error: ''
      | HealthCat \<Rightarrow> ''Health check fetch error: '')"

text \<open>The body of an \<^verbatim>\<open>async for\<close> loop, run for one item.\<close>

definition store_item :: "('a \<Rightarrow> (string \<times> pyval) list) \<Rightarrow> 'a \<Rightarrow> world \<Rightarrow> world" where
  "store_item upd x w = w\<lparr>telemetry_data := assign (telemetry_data w) (upd x)\<rparr>"

text \<open>The \<^verbatim>\<open>except Exception\<close> handler of a fetcher: one entry, then one second of sleep.\<close>

definition fetch_failed :: "category \<Rightarrow> string \<Rightarrow> string \<Rightarrow> world \<Rightarrow> world" where
  "fetch_failed c e ts w = sleep 1 (record_error ts (error_label c @ e) w)"

text \<open>
  One pass of a fetcher's \<^verbatim>\<open>while True\<close>: the subscription delivers some items and then
  either raises an exception (an instance of \<^verbatim>\<open>Exception\<close>, which is what the handler
  catches; with \<^verbatim>\<open>str(e)\<close> and the clock reading at the handler) or is exhausted, which
  ends the \<^verbatim>\<open>async for\<close> without an exception.
\<close>

datatype 'a subscription = Raises "'a list" string string | Exhausted "'a list"

text \<open>
  A fetcher never returns. Its run up to some moment is a list of finished passes and the
  items of the pass that is still open.
\<close>

fun fetch_loop ::
  "category \<Rightarrow> ('a \<Rightarrow> (string \<times> pyval) list) \<Rightarrow> 'a subscription list \<Rightarrow> 'a list \<Rightarrow>
   world \<Rightarrow> world" where
  "fetch_loop c upd [] xs w = fold (store_item upd) xs (emit (EvSubscribe c) w)"
| "fetch_loop c upd (Raises ys e ts # ps) xs w =
     fetch_loop c upd ps xs
       (fetch_failed c e ts (fold (store_item upd) ys (emit (EvSubscribe c) w)))"
| "fetch_loop c upd (Exhausted ys # ps) xs w =
     fetch_loop c upd ps xs (fold (store_item upd) ys (emit (EvSubscribe c) w))"


definition fetch_attitude :: "attitude subscription list \<Rightarrow> attitude list \<Rightarrow> world \<Rightarrow> world" where
  "fetch_attitude = fetch_loop AttitudeCat attitude_updates"

definition fetch_battery :: "battery subscription list \<Rightarrow> battery list \<Rightarrow> world \<Rightarrow> world" where
  "fetch_battery = fetch_loop BatteryCat battery_updates"

definition fetch_gps :: "gps_info subscription list \<Rightarrow> gps_info list \<Rightarrow> world \<Rightarrow> world" where
  "fetch_gps = fetch_loop GpsCat gps_updates"

definition fetch_flight_mode :: "string subscription list \<Rightarrow> string list \<Rightarrow> world \<Rightarrow> world" where
  "fetch_flight_mode = fetch_loop FlightModeCat flight_mode_updates"

definition fetch_armed_status :: "bool subscription list \<Rightarrow> bool list \<Rightarrow> world \<Rightarrow> world" where
  "fetch_armed_status = fetch_loop ArmedCat armed_updates"

definition fetch_rc_signal :: "rc_status subscription list \<Rightarrow> rc_status list \<Rightarrow> world \<Rightarrow> world" where
  "fetch_rc_signal = fetch_loop RcCat rc_updates"


section \<open>The persistence consumer\<close>

definition header :: "string list" where
  "header =
     [''timestamp'', ''lat'', ''lon'', ''alt'', ''abs_alt'', ''speed'', ''roll'', ''pitch'',
      ''yaw'', ''voltage'', ''battery'', ''gps_fix'', ''satellites'', ''flight_mode'',
      ''armed'', ''rc_signal'', ''health_accelerometer_calibration'', ''health_armable'',
      ''health_global_position'', ''health_gyrometer_calibration'', ''health_home_position'',
      ''health_local_position'', ''health_magnetometer_calibration'']"

text \<open>\<^verbatim>\<open>health_data.items()\<close>; the value popped is the nested dictionary.\<close>

fun health_items :: "pyval \<Rightarrow> (string \<times> string) list" where
  "health_items (PDict d) = d"
| "health_items _ = []"

text \<open>
  The first half of an iteration of \<^verbatim>\<open>log_to_csv\<close>: copy, pop the health dictionary,
  add the time stamp (\<^verbatim>\<open>datetime.now().isoformat()\<close>), add the health entries under
  their flattened keys, replace every \<^verbatim>\<open>"N/A"\<close> by 0.
\<close>

definition flatten :: "string \<Rightarrow> dict \<Rightarrow> dict" where
  "flatten now td =
     (let flat_data = dict_copy td;
          (health_data, flat_data) = dict_pop flat_data ''health'' (PDict []);
          flat_data = dict_set flat_data ''timestamp'' (PStr now);
          flat_data = foldl (\<lambda>fd kv. dict_set fd (''health_'' @ replace (lower (fst kv)) '' '' ''_'')
                                         (PStr (snd kv)))
                            flat_data (health_items health_data)
      in map (\<lambda>kv. (fst kv, if snd kv = PStr ''N/A'' then PInt 0 else snd kv)) flat_data)"

text \<open>The dictionary comprehension \<^verbatim>\<open>row_data\<close>, in header order.\<close>

definition row_data :: "dict \<Rightarrow> dict" where
  "row_data flat_data =
     map (\<lambda>k. (k, let v = (case dict_get flat_data k of None \<Rightarrow> PInt 0 | Some v \<Rightarrow> v)
                  in if v \<noteq> PStr ''N/A'' then v else PInt 0)) header"

text \<open>\<^verbatim>\<open>writer.writerow(row_data)\<close> writes the values in the order of the field names.\<close>

definition csv_row :: "dict \<Rightarrow> string list" where
  "csv_row rd = map (\<lambda>k. case dict_get rd k of None \<Rightarrow> [] | Some v \<Rightarrow> py_str v) header"

text \<open>
  What can go wrong inside the \<^verbatim>\<open>try\<close> of an iteration: opening the file for reading
  raises something other than \<^verbatim>\<open>FileNotFoundError\<close>, opening it for appending raises,
  or writing the row raises after the file was opened.
\<close>

datatype io_fault = NoFault | OpenReadRaises string | OpenAppendRaises string | WriteRowRaises string

definition append_rows :: "string list list \<Rightarrow> world \<Rightarrow> world" where
  "append_rows rows w =
     w\<lparr>files := (files w)(filename w \<mapsto>
          (case files w (filename w) of None \<Rightarrow> [] | Some old \<Rightarrow> old) @ rows)\<rparr>"

definition write_header :: "world \<Rightarrow> world" where
  "write_header w = emit (EvWriteHeader header) (append_rows [header] w)"

definition write_row :: "string list \<Rightarrow> world \<Rightarrow> world" where
  "write_row r w = emit (EvWriteRow r) (append_rows [r] w)"

text \<open>One iteration of the \<^verbatim>\<open>while True\<close> of \<^verbatim>\<open>log_to_csv\<close>.\<close>

definition log_tick :: "io_fault \<Rightarrow> string \<Rightarrow> world \<Rightarrow> world" where
  "log_tick fault now w =
     (let flat_data = flatten now (telemetry_data w);
          w1 = (case fault of
                  OpenReadRaises e \<Rightarrow> emit (EvPrint (''Error writing to CSV: '' @ e)) w
                | _ \<Rightarrow>
                  (let file_exists = (files w (filename w) \<noteq> None)
                   in case fault of
                        OpenAppendRaises e \<Rightarrow> emit (EvPrint (''Error writing to CSV: '' @ e)) w
                      | WriteRowRaises e \<Rightarrow>
                          emit (EvPrint (''Error writing to CSV: '' @ e))
                            ((if \<not> file_exists then write_header else append_rows []) w)
                      | _ \<Rightarrow>
                          write_row (csv_row (row_data flat_data))
                            ((if \<not> file_exists then write_header else id) w)))
      in sleep 1 w1)"

text \<open>\<^verbatim>\<open>log_to_csv\<close> over a number of iterations, each with its fault and clock reading.\<close>

fun log_to_csv :: "(io_fault \<times> string) list \<Rightarrow> world \<Rightarrow> world" where
  "log_to_csv [] w = w"
| "log_to_csv ((fault, now) # ticks) w = log_to_csv ticks (log_tick fault now w)"

section \<open>The display consumer\<close>

text \<open>
  The scalar lines of the screen: label, key and unit. A key that is missing from the
  dictionary raises \<^verbatim>\<open>KeyError\<close>, whose text is the quoted key; the lines printed
  before the exception are not kept.
\<close>

definition degree :: string where
  "degree = [CHR 0xC2, CHR 0xB0]"

definition display_fields :: "(string \<times> string \<times> string) list" where
  "display_fields =
     [(''GPS Fix        : '', ''gps_fix'', []),
      (''Satellites     : '', ''satellites'', []),
      (''Latitude       : '', ''lat'', []),
      (''Longitude      : '', ''lon'', []),
      (''Rel Alt (m)    : '', ''alt'', []),
      (''Abs Alt (m)    : '', ''abs_alt'', []),
      (''Roll           : '', ''roll'', degree),
      (''Pitch          : '', ''pitch'', degree),
      (''Yaw            : '', ''yaw'', degree),
      (''Voltage        : '', ''voltage'', '' V''),
      (''Battery        : '', ''battery'', '' %''),
      (''Flight Mode    : '', ''flight_mode'', []),
      (''Armed          : '', ''armed'', []),
      (''RC Signal      : '', ''rc_signal'', [])]"

definition key_error :: "string \<Rightarrow> string" where
  "key_error k = [CHR 0x27] @ k @ [CHR 0x27]"

fun field_lines :: "(string \<times> string \<times> string) list \<Rightarrow> dict \<Rightarrow> string + string list" where
  "field_lines [] td = Inr []"
| "field_lines ((label, k, unit) # fs) td =
     (case dict_get td k of
        None \<Rightarrow> Inl (key_error k)
      | Some v \<Rightarrow>
          (case field_lines fs td of
             Inl e \<Rightarrow> Inl e
           | Inr ls \<Rightarrow> Inr ((label @ py_str v @ unit) # ls)))"

definition no_items :: "string \<Rightarrow> string" where
  "no_items ty =
     [CHR 0x27] @ ty @ [CHR 0x27] @ '' object has no attribute '' @ [CHR 0x27] @ ''items'' @ [CHR 0x27]"

definition health_lines :: "dict \<Rightarrow> string + string list" where
  "health_lines td =
     (case dict_get td ''health'' of
        None \<Rightarrow> Inl (key_error ''health'')
      | Some (PDict d) \<Rightarrow> Inr (map (\<lambda>kv. ljust 30 (fst kv) @ '': '' @ snd kv) d)
      | Some (PStr s) \<Rightarrow> Inl (no_items ''str'')
      | Some (PInt i) \<Rightarrow> Inl (no_items ''int''))"

definition error_lines :: "string list \<Rightarrow> string list" where
  "error_lines el = (if el \<noteq> [] then recent_errors el else [''No errors recorded''])"

text \<open>The text of one screen, or the message of the exception that building it raises.\<close>

definition screen :: "dict \<Rightarrow> string list \<Rightarrow> string + string list" where
  "screen td el =
     (case field_lines display_fields td of
        Inl e \<Rightarrow> Inl e
      | Inr fl \<Rightarrow>
          (case health_lines td of
             Inl e \<Rightarrow> Inl e
           | Inr hl \<Rightarrow>
               Inr ([''========= PX4 MAVSDK Telemetry =========''] @ fl @
                    [[CHR 0x0A] @ ''---------- Pre-Arm Health Check ---------''] @ hl @
                    [[CHR 0x0A] @ ''=========== Recent Errors ===========''] @ error_lines el @
                    [''====================================='' @ [CHR 0x0A]])))"

text \<open>
  One iteration of \<^verbatim>\<open>display_loop\<close>. The output device may raise (\<open>raised\<close> holds the
  text of the exception); \<open>ts\<close> is the clock reading used if an error is recorded.
\<close>

definition display_tick :: "string option \<Rightarrow> string \<Rightarrow> world \<Rightarrow> world" where
  "display_tick raised ts w =
     (case raised of
        Some e \<Rightarrow> sleep 1 (record_error ts (''Display loop error: '' @ e) w)
      | None \<Rightarrow>
          (case screen (telemetry_data w) (error_list w) of
             Inl e \<Rightarrow> sleep 1 (record_error ts (''Display loop error: '' @ e) w)
           | Inr ls \<Rightarrow> sleep 1 (emit (EvScreen ls) w)))"

section \<open>Interleaved tasks\<close>

text \<open>
  The tasks run on one event loop and give up control only at an \<^verbatim>\<open>await\<close>. What one
  task does between two awaits is therefore one step, and a session is a sequence of such
  steps in the order the event loop runs them. The removal of the log file by somebody
  else is a step of the environment.
\<close>

datatype step =
  FetchSubscribe category
| FetchItem item
| FetchFailed category string string
| LogTick io_fault string
| DisplayTick "string option" string
| LogFileRemoved

fun exec_step :: "step \<Rightarrow> world \<Rightarrow> world" where
  "exec_step (FetchSubscribe c) w = emit (EvSubscribe c) w"
| "exec_step (FetchItem i) w = store_item updates i w"
| "exec_step (FetchFailed c e ts) w = fetch_failed c e ts w"
| "exec_step (LogTick fault now) w = log_tick fault now w"
| "exec_step (DisplayTick raised ts) w = display_tick raised ts w"
| "exec_step LogFileRemoved w = w\<lparr>files := (files w)(filename w := None)\<rparr>"

definition exec_steps :: "step list \<Rightarrow> world \<Rightarrow> world" where
  "exec_steps steps w = fold exec_step steps w"

section \<open>The connection supervisor\<close>

definition system_address :: string where
  "system_address = ''serial:///dev/ttyUSB0:57600''"

definition connected_message :: string where
  "connected_message = [CHR 0xE2, CHR 0x9C, CHR 0x85] @ '' Drone connected!''"

definition task_names :: "string list" where
  "task_names =
     [''fetch_position'', ''fetch_attitude'', ''fetch_battery'', ''fetch_gps'',
      ''fetch_flight_mode'', ''fetch_armed_status'', ''fetch_rc_signal'', ''fetch_health'',
      ''display_loop'', ''log_to_csv'']"

text \<open>\<^verbatim>\<open>drone.connect(...)\<close> and the message printed after it.\<close>

definition connect :: "world \<Rightarrow> world" where
  "connect w = emit (EvPrint ''Connecting to drone...'') (emit (EvConnect system_address) w)"

text \<open>
  The loop over \<^verbatim>\<open>connection_state()\<close> ends at the first connected state, which is
  announced, or when the subscription is exhausted, which is not.
\<close>

definition await_connected :: "bool \<Rightarrow> world \<Rightarrow> world" where
  "await_connected seen w = (if seen then emit (EvPrint connected_message) w else w)"

definition launch :: "world \<Rightarrow> world" where
  "launch w = fold (\<lambda>n. emit (EvCreateTask n)) task_names w"

text \<open>The handler of \<^verbatim>\<open>run\<close>: one entry and five seconds of sleep, before \<^verbatim>\<open>run()\<close> again.\<close>

definition retry :: "string \<Rightarrow> string \<Rightarrow> world \<Rightarrow> world" where
  "retry e ts w = sleep 5 (record_error ts (''Main connection error: '' @ e) w)"

text \<open>
  An attempt of \<^verbatim>\<open>run\<close> that ends in its handler: \<^verbatim>\<open>connect\<close> raises, the
  connection-state subscription raises, or the tasks are launched, run some steps, and
  \<^verbatim>\<open>gather\<close> raises. Each carries \<^verbatim>\<open>str(e)\<close> and the clock reading at the handler.
\<close>

datatype attempt =
  ConnectRaises string string
| StateRaises string string
| GatherRaises bool "step list" string string

text \<open>
  The handler does not loop: it calls \<^verbatim>\<open>run()\<close> from inside itself, so every failed
  attempt leaves one more coroutine waiting in its handler, and the interpreter bounds that
  nesting (\<^verbatim>\<open>sys.getrecursionlimit()\<close>, 1000 unless changed). When no level is left,
  the call raises \<^verbatim>\<open>RecursionError\<close>. It is raised inside a handler, so no
  \<^verbatim>\<open>try\<close> of \<^verbatim>\<open>run\<close> catches it, and it leaves every enclosing call.
\<close>

definition recursion_error :: string where
  "recursion_error = ''maximum recursion depth exceeded''"

text \<open>How a call of \<^verbatim>\<open>run\<close> ends: with an exception that leaves it, or with the ten
  tasks launched and awaited.\<close>

datatype outcome = Raised string world | Running world

text \<open>
  \<^verbatim>\<open>run\<close>, given how many nested calls of it the interpreter still allows (this one
  included), up to the moment its last attempt has launched the ten tasks. The tasks of a
  session whose \<^verbatim>\<open>gather\<close> raised are not cancelled by the script, so the steps of a
  later session may be theirs.
\<close>

fun run :: "nat \<Rightarrow> attempt list \<Rightarrow> bool \<Rightarrow> world \<Rightarrow> outcome" where
  "run levels [] seen w =
     (if levels = 0 then Raised recursion_error w
      else Running (launch (await_connected seen (connect w))))"
| "run levels (ConnectRaises e ts # as) seen w =
     (if levels = 0 then Raised recursion_error w
      else run (levels - 1) as seen (retry e ts (emit (EvConnect system_address) w)))"
| "run levels (StateRaises e ts # as) seen w =
     (if levels = 0 then Raised recursion_error w
      else run (levels - 1) as seen (retry e ts (connect w)))"
| "run levels (GatherRaises seen' steps e ts # as) seen w =
     (if levels = 0 then Raised recursion_error w
      else run (levels - 1) as seen
             (retry e ts (exec_steps steps (launch (await_connected seen' (connect w))))))"

text \<open>
  The script's entry point: \<^verbatim>\<open>asyncio.run(run())\<close> inside a \<^verbatim>\<open>try\<close> whose handler
  records an exception that leaves \<^verbatim>\<open>run\<close>, after which the process ends. The clock
  reading is the one at that handler. A keyboard interrupt is not an \<^verbatim>\<open>Exception\<close> and
  is not part of this.
\<close>

datatype process = Exited world | Alive world

definition main :: "nat \<Rightarrow> string \<Rightarrow> attempt list \<Rightarrow> bool \<Rightarrow> world \<Rightarrow> process" where
  "main levels ts as seen w =
     (case run levels as seen w of
        Raised e w' \<Rightarrow> Exited (record_error ts (''Fatal error in main: '' @ e) w')
      | Running w' \<Rightarrow> Alive w')"

section \<open>Reading a run\<close>

text \<open>
  The assignments to \<^verbatim>\<open>telemetry_data\<close> that a step makes, and the value that the most
  recent assignment to a key has given it.
\<close>

fun step_updates :: "step \<Rightarrow> (string \<times> pyval) list" where
  "step_updates (FetchItem i) = updates i"
| "step_updates _ = []"

definition latest_update :: "(string \<times> pyval) list \<Rightarrow> string \<Rightarrow> pyval option" where
  "latest_update kvs k =
     (let ws = filter (\<lambda>kv. fst kv = k) kvs in if ws = [] then None else Some (snd (last ws)))"

fun item_category :: "item \<Rightarrow> category" where
  "item_category (PositionItem _) = PositionCat"
| "item_category (AttitudeItem _) = AttitudeCat"
| "item_category (BatteryItem _) = BatteryCat"
| "item_category (GpsItem _) = GpsCat"
| "item_category (FlightModeItem _) = FlightModeCat"
| "item_category (ArmedItem _) = ArmedCat"
| "item_category (RcItem _) = RcCat"
| "item_category (HealthItem _) = HealthCat"

text \<open>The keys a fetcher assigns to.\<close>

definition category_keys :: "category \<Rightarrow> string list" where
  "category_keys c =
     (case c of
        PositionCat \<Rightarrow> [''lat'', ''lon'', ''alt'', ''abs_alt'']
      | AttitudeCat \<Rightarrow> [''roll'', ''pitch'', ''yaw'']
      | BatteryCat \<Rightarrow> [''voltage'', ''battery'']
      | GpsCat \<Rightarrow> [''gps_fix'', ''satellites'']
      | FlightModeCat \<Rightarrow> [''flight_mode'']
      | ArmedCat \<Rightarrow> [''armed'']
      | RcCat \<Rightarrow> [''rc_signal'']
      | HealthCat \<Rightarrow> [''health''])"

text \<open>The text \<open>p\<close> occurs somewhere in \<open>s\<close>.\<close>

fun occurs_in :: "string \<Rightarrow> string \<Rightarrow> bool" where
  "occurs_in p [] = (p = [])"
| "occurs_in p (c # cs) = (startswith (c # cs) p \<or> occurs_in p cs)"

text \<open>The cell of a row that stands under a given column name.\<close>

definition column :: "string list \<Rightarrow> string \<Rightarrow> string option" where
  "column row k = map_of (zip header row) k"

text \<open>The keys of the scalar fields of \<^verbatim>\<open>telemetry_data\<close>.\<close>

definition scalar_keys :: "string list" where
  "scalar_keys =
     [''lat'', ''lon'', ''alt'', ''abs_alt'', ''speed'', ''roll'', ''pitch'', ''yaw'',
      ''voltage'', ''battery'', ''gps_fix'', ''satellites'', ''flight_mode'', ''armed'',
      ''rc_signal'']"

definition digits :: "char set" where
  "digits = set ''0123456789''"

text \<open>The replacement of the marker \<^verbatim>\<open>"N/A"\<close> by 0, for one value.\<close>

definition na0 :: "pyval \<Rightarrow> pyval" where
  "na0 v = (if v = PStr ''N/A'' then PInt 0 else v)"

text \<open>
  The header rows and the data rows that a stretch of the trace hands to the csv writer,
  and whether an iteration with a given fault gets as far as opening the file for appending.
\<close>

fun header_writes :: "event list \<Rightarrow> nat" where
  "header_writes [] = 0"
| "header_writes (EvWriteHeader h # evs) = Suc (header_writes evs)"
| "header_writes (_ # evs) = header_writes evs"

fun data_rows :: "event list \<Rightarrow> string list list" where
  "data_rows [] = []"
| "data_rows (EvWriteRow r # evs) = r # data_rows evs"
| "data_rows (_ # evs) = data_rows evs"

fun opens_for_append :: "io_fault \<Rightarrow> bool" where
  "opens_for_append NoFault = True"
| "opens_for_append (WriteRowRaises e) = True"
| "opens_for_append _ = False"

text \<open>The events a run adds to the trace it started with.\<close>

definition new_events :: "world \<Rightarrow> world \<Rightarrow> event list" where
  "new_events w w' = drop (length (trace w)) (trace w')"




text \<open>
  What the failed attempts of \<^verbatim>\<open>run\<close> amount to: the entry each one records, whether it
  failed before the tasks were launched, and the steps its session ran.
\<close>

fun attempt_error :: "attempt \<Rightarrow> string \<times> string" where
  "attempt_error (ConnectRaises e ts) = (ts, ''Main connection error: '' @ e)"
| "attempt_error (StateRaises e ts) = (ts, ''Main connection error: '' @ e)"
| "attempt_error (GatherRaises seen steps e ts) = (ts, ''Main connection error: '' @ e)"

fun connect_phase :: "attempt \<Rightarrow> bool" where
  "connect_phase (ConnectRaises e ts) = True"
| "connect_phase (StateRaises e ts) = True"
| "connect_phase (GatherRaises seen steps e ts) = False"

fun attempt_steps :: "attempt \<Rightarrow> step list" where
  "attempt_steps (GatherRaises seen steps e ts) = steps"
| "attempt_steps _ = []"

text \<open>
  One failed attempt from the connection to the end of its handler, a row of them, the start
  of a session, and the state of the process when a call of \<^verbatim>\<open>run\<close> has ended.
\<close>

fun attempt_handled :: "attempt \<Rightarrow> world \<Rightarrow> world" where
  "attempt_handled (ConnectRaises e ts) w = retry e ts (emit (EvConnect system_address) w)"
| "attempt_handled (StateRaises e ts) w = retry e ts (connect w)"
| "attempt_handled (GatherRaises seen steps e ts) w =
     retry e ts (exec_steps steps (launch (await_connected seen (connect w))))"

definition handled :: "attempt list \<Rightarrow> world \<Rightarrow> world" where
  "handled as w = fold attempt_handled as w"

definition session_start :: "bool \<Rightarrow> world \<Rightarrow> world" where
  "session_start seen w = launch (await_connected seen (connect w))"

fun state_of :: "outcome \<Rightarrow> world" where
  "state_of (Raised e w) = w"
| "state_of (Running w) = w"

text \<open>
  The readings of an item that a fetcher formats as fixed-point numbers: the key each is
  stored under, the number of fraction digits its f-string asks for, and the reading.
\<close>

fun float_fields :: "item \<Rightarrow> (string \<times> nat \<times> pyfloat) list" where
  "float_fields (PositionItem pos) =
     [(''lat'', 6, latitude_deg pos), (''lon'', 6, longitude_deg pos),
      (''alt'', 2, relative_altitude_m pos), (''abs_alt'', 2, absolute_altitude_m pos)]"
| "float_fields (AttitudeItem att) =
     [(''roll'', 2, roll_deg att), (''pitch'', 2, pitch_deg att), (''yaw'', 2, yaw_deg att)]"
| "float_fields (BatteryItem batt) =
     [(''voltage'', 2, voltage_v batt), (''battery'', 1, remaining_percent batt)]"
| "float_fields (RcItem rc) =
     (case signal_strength_percent rc of None \<Rightarrow> [] | Some x \<Rightarrow> [(''rc_signal'', 1, x)])"
| "float_fields _ = []"

text \<open>The text ends in a point followed by exactly \<open>d\<close> decimal digits.\<close>

definition fraction_digits :: "nat \<Rightarrow> string \<Rightarrow> bool" where
  "fraction_digits d s =
     (d < length s \<and> s ! (length s - Suc d) = CHR ''.'' \<and>
      list_all (\<lambda>c. c \<in> digits) (drop (length s - d) s))"

section \<open>The error log is a bounded queue\<close>

lemma add_error_step:
  assumes "length el \<le> 5"
  shows "add_error ts msg el = drop (Suc (length el) - 5) (el @ [error_entry (ts, msg)])"
proof (cases "length el = 5")
  case True
  then have "el \<noteq> []" by auto
  then show ?thesis
    using True by (simp add: add_error_def error_entry_def Let_def MAX_ERRORS_DISPLAYED_def drop_Suc)
next
  case False
  then have "length el < 5" using assms by simp
  then show ?thesis
    by (simp add: add_error_def error_entry_def Let_def MAX_ERRORS_DISPLAYED_def)
qed

lemma add_errors_drop:
  "length el \<le> 5 \<Longrightarrow>
   add_errors es el = drop (length el + length es - 5) (el @ map error_entry es)"
proof (induction es arbitrary: el)
  case Nil
  then show ?case by simp
next
  case (Cons a es)
  obtain ts msg where a: "a = (ts, msg)" by (cases a)
  define k where "k = Suc (length el) - 5"
  define el' where "el' = add_error ts msg el"
  have el': "el' = drop k (el @ [error_entry a])"
    unfolding el'_def k_def a using Cons.prems by (rule add_error_step)
  have k: "k \<le> length (el @ [error_entry a])"
    by (simp add: k_def)
  have len': "length el' = Suc (length el) - k"
    by (simp add: el')
  then have len5: "length el' \<le> 5"
    using Cons.prems by (simp add: k_def)
  have "drop k ((el @ [error_entry a]) @ map error_entry es)
          = drop k (el @ [error_entry a]) @ drop (k - length (el @ [error_entry a])) (map error_entry es)"
    by (rule drop_append)
  moreover have "k - length (el @ [error_entry a]) = 0"
    using k by simp
  ultimately have app: "el' @ map error_entry es = drop k (el @ map error_entry (a # es))"
    by (simp add: el')
  have idx: "length el' + length es - 5 + k = length el + length (a # es) - 5"
    using Cons.prems len' by (simp add: k_def)
  have "add_errors (a # es) el = add_errors es el'"
    by (simp add: a el'_def)
  also have "\<dots> = drop (length el' + length es - 5) (el' @ map error_entry es)"
    using len5 by (rule Cons.IH)
  also have "\<dots> = drop (length el' + length es - 5 + k) (el @ map error_entry (a # es))"
    unfolding app by (rule drop_drop)
  finally show ?case
    unfolding idx .
qed

text \<open>
  C3. Whatever calls of \<^verbatim>\<open>add_error\<close> are made on a log within its capacity, the log
  never holds more than five entries and consists of the last entries of the old log
  followed by the new ones, the oldest dropped first. After more than five calls the slice
  the display reads is exactly the five entries inserted last, in insertion order.
\<close>

theorem error_log_bounded_fifo:
  assumes "length el \<le> MAX_ERRORS_DISPLAYED"
  shows "length (add_errors es el) \<le> 5
       \<and> add_errors es el = drop (length el + length es - 5) (el @ map error_entry es)
       \<and> (5 < length es \<longrightarrow>
            length (recent_errors (add_errors es el)) = 5
          \<and> recent_errors (add_errors es el) = map error_entry (drop (length es - 5) es))"
proof -
  have el: "length el \<le> 5"
    using assms by (simp add: MAX_ERRORS_DISPLAYED_def)
  have A: "add_errors es el = drop (length el + length es - 5) (el @ map error_entry es)"
    using el by (rule add_errors_drop)
  have B: "length (add_errors es el) \<le> 5"
    unfolding A using el by simp
  have C: "recent_errors (add_errors es el) = add_errors es el"
    using B by (simp add: recent_errors_def MAX_ERRORS_DISPLAYED_def)
  have D: "add_errors es el = map error_entry (drop (length es - 5) es)" if "5 < length es"
    unfolding A using el that by (simp add: drop_map)
  have E: "length (add_errors es el) = 5" if "5 < length es"
    unfolding D [OF that] using that by simp
  show ?thesis
  proof (intro conjI impI)
    show "length (add_errors es el) \<le> 5" by (rule B)
    show "add_errors es el = drop (length el + length es - 5) (el @ map error_entry es)" by (rule A)
    show "length (recent_errors (add_errors es el)) = 5" if "5 < length es"
      unfolding C using that by (rule E)
    show "recent_errors (add_errors es el) = map error_entry (drop (length es - 5) es)"
      if "5 < length es"
      unfolding C using that by (rule D)
  qed
qed

theorem error_log_bounded_fifo_witness:
  "length ([] :: string list) \<le> MAX_ERRORS_DISPLAYED
   \<and> 5 < length [(''t1'', ''a''), (''t2'', ''b''), (''t3'', ''c''), (''t4'', ''d''),
                  (''t5'', ''e''), (''t6'', ''f''), (''t7'', ''g'')]
   \<and> recent_errors
       (add_errors [(''t1'', ''a''), (''t2'', ''b''), (''t3'', ''c''), (''t4'', ''d''),
                    (''t5'', ''e''), (''t6'', ''f''), (''t7'', ''g'')] [])
     = [''[t3] c'', ''[t4] d'', ''[t5] e'', ''[t6] f'', ''[t7] g'']"
  using error_log_bounded_fifo [of "[]" "[(''t1'', ''a''), (''t2'', ''b''), (''t3'', ''c''), (''t4'', ''d''),
                    (''t5'', ''e''), (''t6'', ''f''), (''t7'', ''g'')]"]
  by (simp add: MAX_ERRORS_DISPLAYED_def error_entry_def recent_errors_def add_error_def)

section \<open>Basic facts about the dictionary and the process state\<close>

lemma dict_get_set: "dict_get (dict_set d k v) k' = (if k' = k then Some v else dict_get d k')"
  by (induction d) (auto simp: dict_get_def)

lemma latest_update_snoc:
  "latest_update (kvs @ [kv]) k = (if fst kv = k then Some (snd kv) else latest_update kvs k)"
  by (simp add: latest_update_def)

lemma dict_get_assign:
  "dict_get (assign d kvs) k
     = (case latest_update kvs k of None \<Rightarrow> dict_get d k | Some v \<Rightarrow> Some v)"
proof (induction kvs rule: rev_induct)
  case Nil
  show ?case by (simp add: assign_def latest_update_def)
next
  case (snoc kv kvs)
  have "assign d (kvs @ [kv]) = dict_set (assign d kvs) (fst kv) (snd kv)"
    by (simp add: assign_def)
  then show ?case
    using snoc by (simp add: dict_get_set latest_update_snoc)
qed

lemma assign_append: "assign d (xs @ ys) = assign (assign d xs) ys"
  by (simp add: assign_def)

lemma world_emit [simp]:
  "telemetry_data (emit ev w) = telemetry_data w"
  "error_list (emit ev w) = error_list w"
  "filename (emit ev w) = filename w"
  "files (emit ev w) = files w"
  "trace (emit ev w) = trace w @ [ev]"
  by (simp_all add: emit_def)

lemma world_sleep [simp]:
  "telemetry_data (sleep n w) = telemetry_data w"
  "error_list (sleep n w) = error_list w"
  "filename (sleep n w) = filename w"
  "files (sleep n w) = files w"
  "trace (sleep n w) = trace w @ [EvSleep n]"
  by (simp_all add: sleep_def)

lemma world_record_error [simp]:
  "telemetry_data (record_error ts m w) = telemetry_data w"
  "error_list (record_error ts m w) = add_error ts m (error_list w)"
  "filename (record_error ts m w) = filename w"
  "files (record_error ts m w) = files w"
  "trace (record_error ts m w) = trace w"
  by (simp_all add: record_error_def)

lemma world_store_item [simp]:
  "telemetry_data (store_item upd x w) = assign (telemetry_data w) (upd x)"
  "error_list (store_item upd x w) = error_list w"
  "filename (store_item upd x w) = filename w"
  "files (store_item upd x w) = files w"
  "trace (store_item upd x w) = trace w"
  by (simp_all add: store_item_def)

lemma world_fetch_failed [simp]:
  "telemetry_data (fetch_failed c e ts w) = telemetry_data w"
  "error_list (fetch_failed c e ts w) = add_error ts (error_label c @ e) (error_list w)"
  "filename (fetch_failed c e ts w) = filename w"
  "files (fetch_failed c e ts w) = files w"
  "trace (fetch_failed c e ts w) = trace w @ [EvSleep 1]"
  by (simp_all add: fetch_failed_def)

lemma world_append_rows [simp]:
  "telemetry_data (append_rows rs w) = telemetry_data w"
  "error_list (append_rows rs w) = error_list w"
  "filename (append_rows rs w) = filename w"
  "trace (append_rows rs w) = trace w"
  by (simp_all add: append_rows_def)

lemma world_write_header [simp]:
  "telemetry_data (write_header w) = telemetry_data w"
  "error_list (write_header w) = error_list w"
  "filename (write_header w) = filename w"
  by (simp_all add: write_header_def)

lemma world_write_row [simp]:
  "telemetry_data (write_row r w) = telemetry_data w"
  "error_list (write_row r w) = error_list w"
  "filename (write_row r w) = filename w"
  by (simp_all add: write_row_def)

lemma world_log_tick [simp]:
  "telemetry_data (log_tick fault now w) = telemetry_data w"
  "error_list (log_tick fault now w) = error_list w"
  "filename (log_tick fault now w) = filename w"
  by (simp_all add: log_tick_def Let_def split: io_fault.splits)

lemma world_display_tick [simp]:
  "telemetry_data (display_tick raised ts w) = telemetry_data w"
  "filename (display_tick raised ts w) = filename w"
  "files (display_tick raised ts w) = files w"
  by (simp_all add: display_tick_def split: option.splits sum.splits)

lemma world_exec_step [simp]:
  "telemetry_data (exec_step s w) = assign (telemetry_data w) (step_updates s)"
  "filename (exec_step s w) = filename w"
  by (cases s; simp add: assign_def)+

lemma world_exec_steps:
  "telemetry_data (exec_steps steps w) = assign (telemetry_data w) (concat (map step_updates steps))"
  "filename (exec_steps steps w) = filename w"
  unfolding exec_steps_def
  by (induction steps arbitrary: w; simp add: assign_def)+

lemma update_keys: "map fst (updates i) = category_keys (item_category i)"
  by (cases i)
     (simp_all add: category_keys_def position_updates_def attitude_updates_def
        battery_updates_def gps_updates_def flight_mode_updates_def armed_updates_def
        rc_updates_def health_updates_def)

lemma category_keys_disjoint:
  "set (category_keys c) \<inter> set (category_keys c')
     = (if c = c' then set (category_keys c) else {})"
  by (cases c; cases c'; simp add: category_keys_def)

section \<open>Snapshots of the shared dictionary\<close>

text \<open>
  C2. Take any sequence of steps of the tasks, in the order the event loop runs them. The
  copy a consumer takes afterwards holds, for every key, the value of the most recent
  assignment made to that key by the loop body of a fetcher, and the value the dictionary
  had before when no step assigned to the key. A value is stored whole. Items of different
  fetchers assign to disjoint sets of keys, and the consumers leave the dictionary as it is.
\<close>

theorem snapshot_reflects_latest_updates:
  "dict_get (dict_copy (telemetry_data (exec_steps steps w))) k
     = (case latest_update (concat (map step_updates steps)) k of
          None \<Rightarrow> dict_get (telemetry_data w) k
        | Some v \<Rightarrow> Some v)
   \<and> set (map fst (updates i)) \<inter> set (map fst (updates j))
       = (if item_category i = item_category j then set (map fst (updates i)) else {})
   \<and> telemetry_data (log_tick fault now (exec_steps steps w)) = telemetry_data (exec_steps steps w)
   \<and> telemetry_data (display_tick raised ts (exec_steps steps w))
       = telemetry_data (exec_steps steps w)"
  by (simp add: dict_copy_def world_exec_steps dict_get_assign update_keys category_keys_disjoint)

section \<open>Health updates\<close>

lemma latest_update_append:
  "latest_update (xs @ ys) k
     = (case latest_update ys k of None \<Rightarrow> latest_update xs k | Some v \<Rightarrow> Some v)"
  by (simp add: latest_update_def Let_def)

lemma latest_update_health_step:
  "latest_update (step_updates s) ''health'' = None
   \<or> (\<exists>h. latest_update (step_updates s) ''health'' = Some (PDict (health_dict h)))"
proof (cases s)
  case (FetchItem i)
  then show ?thesis
    by (cases i)
       (auto simp: latest_update_def position_updates_def attitude_updates_def
          battery_updates_def gps_updates_def flight_mode_updates_def armed_updates_def
          rc_updates_def health_updates_def)
qed (simp_all add: latest_update_def)

lemma latest_health_update:
  "latest_update (concat (map step_updates steps)) ''health'' = None
   \<or> (\<exists>h. latest_update (concat (map step_updates steps)) ''health''
            = Some (PDict (health_dict h)))"
proof (induction steps rule: rev_induct)
  case Nil
  show ?case by (simp add: latest_update_def)
next
  case (snoc s steps)
  have eq: "latest_update (concat (map step_updates (steps @ [s]))) ''health''
      = (case latest_update (step_updates s) ''health'' of
           None \<Rightarrow> latest_update (concat (map step_updates steps)) ''health''
         | Some v \<Rightarrow> Some v)"
    by (simp add: latest_update_append)
  from latest_update_health_step [of s] show ?case
  proof
    assume "latest_update (step_updates s) ''health'' = None"
    then show ?thesis using snoc unfolding eq by simp
  next
    assume "\<exists>h. latest_update (step_updates s) ''health'' = Some (PDict (health_dict h))"
    then show ?thesis unfolding eq by auto
  qed
qed

lemma health_dict_keys:
  "map fst (health_dict h)
     = [''Accelerometer calibration'', ''Gyrometer calibration'', ''Magnetometer calibration'',
        ''Global position'', ''Home position'', ''Local position'', ''Armable'']"
  by (simp add: health_dict_def)

lemma health_dict_same_checks:
  "set (map fst (health_dict h)) = set (map fst initial_health)"
  "length (health_dict h) = 7" "distinct (map fst (health_dict h))"
  by (auto simp: health_dict_def initial_health_def)

lemma initial_health_checks:
  "length initial_health = 7" "distinct (map fst initial_health)"
  by (simp_all add: initial_health_def)

lemma session_health_checklist:
  "\<exists>d. dict_get (telemetry_data (exec_steps steps (module_init s fs))) ''health'' = Some (PDict d)
       \<and> set (map fst d) = set (map fst initial_health) \<and> length d = 7 \<and> distinct (map fst d)"
proof -
  have init: "dict_get (telemetry_data (module_init s fs)) ''health'' = Some (PDict initial_health)"
    by (simp add: module_init_def initial_telemetry_data_def dict_get_def)
  from latest_health_update [of steps] show ?thesis
  proof
    assume "latest_update (concat (map step_updates steps)) ''health'' = None"
    then have "dict_get (telemetry_data (exec_steps steps (module_init s fs))) ''health''
                 = Some (PDict initial_health)"
      by (simp add: world_exec_steps dict_get_assign init)
    then show ?thesis
      using initial_health_checks by blast
  next
    assume "\<exists>h. latest_update (concat (map step_updates steps)) ''health''
                   = Some (PDict (health_dict h))"
    then obtain h where "latest_update (concat (map step_updates steps)) ''health''
                   = Some (PDict (health_dict h))" ..
    then have "dict_get (telemetry_data (exec_steps steps (module_init s fs))) ''health''
                 = Some (PDict (health_dict h))"
      by (simp add: world_exec_steps dict_get_assign)
    then show ?thesis
      using health_dict_same_checks [of h] by blast
  qed
qed

lemma health_update_replaces:
  "dict_get (telemetry_data (store_item health_updates h w)) k
     = (if k = ''health'' then Some (PDict (health_dict h)) else dict_get (telemetry_data w) k)"
  by (simp add: assign_def health_updates_def dict_get_set)

text \<open>
  C4. A health item replaces the whole nested dictionary under \<^verbatim>\<open>"health"\<close> and
  touches no other key. On the fresh dictionary the flags armable, not global position, all
  others true give OK everywhere but FAIL for the global position. A second health item
  leaves nothing of the first. Each of the seven checks shows OK for a true flag and FAIL
  for a false one, and at any moment of any session the checklist has exactly the seven
  named checks.
\<close>

theorem health_update_replaces_checklist:
  "dict_get (telemetry_data (store_item health_updates (Health True True True True False True True)
                               (module_init s fs))) ''health''
     = Some (PDict [(''Accelerometer calibration'', ''OK''), (''Gyrometer calibration'', ''OK''),
                    (''Magnetometer calibration'', ''OK''), (''Global position'', ''FAIL''),
                    (''Home position'', ''OK''), (''Local position'', ''OK''),
                    (''Armable'', ''OK'')])
   \<and> dict_get (telemetry_data (store_item health_updates h w)) k
       = (if k = ''health'' then Some (PDict (health_dict h)) else dict_get (telemetry_data w) k)
   \<and> dict_get (telemetry_data (store_item health_updates h2 (store_item health_updates h1 w)))
         ''health''
       = Some (PDict (health_dict h2))
   \<and> map_of (health_dict h)
       = [''Accelerometer calibration'' \<mapsto> ok_fail (is_accelerometer_calibration_ok h),
          ''Armable'' \<mapsto> ok_fail (is_armable h),
          ''Global position'' \<mapsto> ok_fail (is_global_position_ok h),
          ''Gyrometer calibration'' \<mapsto> ok_fail (is_gyrometer_calibration_ok h),
          ''Home position'' \<mapsto> ok_fail (is_home_position_ok h),
          ''Local position'' \<mapsto> ok_fail (is_local_position_ok h),
          ''Magnetometer calibration'' \<mapsto> ok_fail (is_magnetometer_calibration_ok h)]
   \<and> ok_fail True = ''OK'' \<and> ok_fail False = ''FAIL''
   \<and> (\<exists>d. dict_get (telemetry_data (exec_steps steps (module_init s fs))) ''health''
               = Some (PDict d)
          \<and> set (map fst d) = set (map fst initial_health) \<and> length d = 7
          \<and> distinct (map fst d))"
proof (intro conjI)
  show "dict_get (telemetry_data (store_item health_updates (Health True True True True False True True)
                               (module_init s fs))) ''health''
     = Some (PDict [(''Accelerometer calibration'', ''OK''), (''Gyrometer calibration'', ''OK''),
                    (''Magnetometer calibration'', ''OK''), (''Global position'', ''FAIL''),
                    (''Home position'', ''OK''), (''Local position'', ''OK''),
                    (''Armable'', ''OK'')])"
    unfolding health_update_replaces by (simp add: health_dict_def ok_fail_def)
  show "dict_get (telemetry_data (store_item health_updates h w)) k
       = (if k = ''health'' then Some (PDict (health_dict h)) else dict_get (telemetry_data w) k)"
    by (rule health_update_replaces)
  show "dict_get (telemetry_data (store_item health_updates h2 (store_item health_updates h1 w)))
         ''health''
       = Some (PDict (health_dict h2))"
    unfolding health_update_replaces by simp
  show "map_of (health_dict h)
       = [''Accelerometer calibration'' \<mapsto> ok_fail (is_accelerometer_calibration_ok h),
          ''Armable'' \<mapsto> ok_fail (is_armable h),
          ''Global position'' \<mapsto> ok_fail (is_global_position_ok h),
          ''Gyrometer calibration'' \<mapsto> ok_fail (is_gyrometer_calibration_ok h),
          ''Home position'' \<mapsto> ok_fail (is_home_position_ok h),
          ''Local position'' \<mapsto> ok_fail (is_local_position_ok h),
          ''Magnetometer calibration'' \<mapsto> ok_fail (is_magnetometer_calibration_ok h)]"
    by (rule ext) (simp add: health_dict_def)
  show "ok_fail True = ''OK''" and "ok_fail False = ''FAIL''"
    by (simp_all add: ok_fail_def)
  show "\<exists>d. dict_get (telemetry_data (exec_steps steps (module_init s fs))) ''health''
               = Some (PDict d)
          \<and> set (map fst d) = set (map fst initial_health) \<and> length d = 7
          \<and> distinct (map fst d)"
    by (rule session_health_checklist)
qed

section \<open>Enumeration labels\<close>

lemma occurs_in_iff: "occurs_in p s \<longleftrightarrow> (\<exists>a b. s = a @ p @ b)"
proof (induction s)
  case Nil
  show ?case by auto
next
  case (Cons c cs)
  show ?case
  proof
    assume "occurs_in p (c # cs)"
    then consider "startswith (c # cs) p" | "occurs_in p cs" by auto
    then show "\<exists>a b. c # cs = a @ p @ b"
    proof cases
      case 1
      then have "c # cs = [] @ p @ drop (length p) (c # cs)"
        unfolding startswith_def by (metis append_Nil append_take_drop_id)
      then show ?thesis by blast
    next
      case 2
      then obtain a b where "cs = a @ p @ b" using Cons.IH by blast
      then have "c # cs = (c # a) @ p @ b" by simp
      then show ?thesis by blast
    qed
  next
    assume "\<exists>a b. c # cs = a @ p @ b"
    then obtain a b where ab: "c # cs = a @ p @ b" by blast
    show "occurs_in p (c # cs)"
    proof (cases a)
      case Nil
      then have "startswith (c # cs) p" using ab by (simp add: startswith_def)
      then show ?thesis by simp
    next
      case (Cons x a')
      then have "cs = a' @ p @ b" using ab by simp
      then show ?thesis using Cons.IH by auto
    qed
  qed
qed

lemma replace_prefix:
  assumes "p \<noteq> []"
  shows "replace (p @ s) p new = new @ replace s p new"
proof -
  obtain c cs where p: "p = c # cs" using assms by (cases p) auto
  have "startswith (c # cs @ s) (c # cs)" by (simp add: startswith_def)
  then show ?thesis unfolding p by simp
qed

lemma replace_absent:
  assumes "p \<noteq> []"
  shows "\<not> occurs_in p s \<Longrightarrow> replace s p new = s"
  using assms by (induction s) auto

text \<open>
  C8. The labels are those of the enumerations of the MAVSDK library, which is not part of
  the script; none of them contains the text of the prefix a second time. For every label
  that carries the prefix \<^verbatim>\<open>FIX_TYPE_\<close> or \<^verbatim>\<open>FLIGHT_MODE_\<close> in front of a bare label
  in which that text does not occur, the value stored is the bare label, and a label that
  comes without the prefix is stored as it is.
\<close>

theorem label_prefix_stripped:
  "(\<not> occurs_in ''FIX_TYPE_'' label \<longrightarrow>
      dict_get (telemetry_data (store_item gps_updates (GpsInfo (''FIX_TYPE_'' @ label) n) w))
        ''gps_fix'' = Some (PStr label)
    \<and> dict_get (telemetry_data (store_item gps_updates (GpsInfo label n) w))
        ''gps_fix'' = Some (PStr label))
   \<and> (\<not> occurs_in ''FLIGHT_MODE_'' label \<longrightarrow>
      dict_get (telemetry_data (store_item flight_mode_updates (''FLIGHT_MODE_'' @ label) w))
        ''flight_mode'' = Some (PStr label)
    \<and> dict_get (telemetry_data (store_item flight_mode_updates label w))
        ''flight_mode'' = Some (PStr label))
   \<and> occurs_in p s = (\<exists>a b. s = a @ p @ b)"
proof -
  have gps: "dict_get (telemetry_data (store_item gps_updates (GpsInfo l n) w)) ''gps_fix''
               = Some (PStr (replace l ''FIX_TYPE_'' []))" for l
    by (simp add: gps_updates_def assign_def dict_get_set)
  have mode: "dict_get (telemetry_data (store_item flight_mode_updates l w)) ''flight_mode''
               = Some (PStr (replace l ''FLIGHT_MODE_'' []))" for l
    by (simp add: flight_mode_updates_def assign_def dict_get_set)
  have r1: "replace (''FIX_TYPE_'' @ label) ''FIX_TYPE_'' [] = replace label ''FIX_TYPE_'' []"
    using replace_prefix [of "''FIX_TYPE_''" label "[]"] by simp
  have r2: "replace (''FLIGHT_MODE_'' @ label) ''FLIGHT_MODE_'' [] = replace label ''FLIGHT_MODE_'' []"
    using replace_prefix [of "''FLIGHT_MODE_''" label "[]"] by simp
  have a1: "\<not> occurs_in ''FIX_TYPE_'' label \<Longrightarrow> replace label ''FIX_TYPE_'' [] = label"
    by (rule replace_absent) simp
  have a2: "\<not> occurs_in ''FLIGHT_MODE_'' label \<Longrightarrow> replace label ''FLIGHT_MODE_'' [] = label"
    by (rule replace_absent) simp
  show ?thesis
    unfolding gps mode r1 r2 using a1 a2 occurs_in_iff [of p s] by simp
qed

theorem label_prefix_stripped_witness:
  "\<not> occurs_in ''FIX_TYPE_'' ''FIX_3D'' \<and> \<not> occurs_in ''FLIGHT_MODE_'' ''RETURN_TO_LAUNCH''
   \<and> dict_get (telemetry_data (store_item gps_updates (GpsInfo ''FIX_TYPE_FIX_3D'' 9)
                                 (module_init ''20240101_120000'' Map.empty))) ''gps_fix''
       = Some (PStr ''FIX_3D'')
   \<and> dict_get (telemetry_data (store_item gps_updates (GpsInfo ''FIX_3D'' 9)
                                 (module_init ''20240101_120000'' Map.empty))) ''gps_fix''
       = Some (PStr ''FIX_3D'')
   \<and> dict_get (telemetry_data (store_item flight_mode_updates ''FLIGHT_MODE_RETURN_TO_LAUNCH''
                                 (module_init ''20240101_120000'' Map.empty))) ''flight_mode''
       = Some (PStr ''RETURN_TO_LAUNCH'')"
proof -
  have h1: "\<not> occurs_in ''FIX_TYPE_'' ''FIX_3D''"
    by (simp add: startswith_def)
  have h2: "\<not> occurs_in ''FLIGHT_MODE_'' ''RETURN_TO_LAUNCH''"
    by (simp add: startswith_def)
  note T1 = label_prefix_stripped [of "''FIX_3D''" 9 "module_init ''20240101_120000'' Map.empty"]
  note T2 = label_prefix_stripped
              [of "''RETURN_TO_LAUNCH''" 9 "module_init ''20240101_120000'' Map.empty"]
  have "dict_get (telemetry_data (store_item gps_updates (GpsInfo (''FIX_TYPE_'' @ ''FIX_3D'') 9)
                                 (module_init ''20240101_120000'' Map.empty))) ''gps_fix''
       = Some (PStr ''FIX_3D'')"
    and "dict_get (telemetry_data (store_item gps_updates (GpsInfo ''FIX_3D'' 9)
                                 (module_init ''20240101_120000'' Map.empty))) ''gps_fix''
       = Some (PStr ''FIX_3D'')"
    using T1 h1 by blast+
  moreover have "dict_get (telemetry_data
                   (store_item flight_mode_updates (''FLIGHT_MODE_'' @ ''RETURN_TO_LAUNCH'')
                                 (module_init ''20240101_120000'' Map.empty))) ''flight_mode''
       = Some (PStr ''RETURN_TO_LAUNCH'')"
    using T2 h2 by blast
  ultimately show ?thesis
    using h1 h2 by simp
qed

section \<open>Rows of the tabular log\<close>

lemma dict_get_pop:
  "dict_get (snd (dict_pop d k dflt)) k' = (if k' = k then None else dict_get d k')"
proof (cases "map_of d k")
  case None
  then show ?thesis by (auto simp: dict_pop_def dict_get_def)
next
  case (Some v)
  have "map_of (filter (\<lambda>kv. fst kv \<noteq> k) d) k' = (if k' = k then None else map_of d k')"
    by (induction d) auto
  then show ?thesis using Some by (simp add: dict_pop_def dict_get_def)
qed

lemma dict_get_map_values:
  "dict_get (map (\<lambda>kv. (fst kv, g (snd kv))) d) k = map_option g (dict_get d k)"
  unfolding dict_get_def by (induction d) auto

lemma foldl_dict_set_assign:
  "foldl (\<lambda>fd kv. dict_set fd (h (fst kv)) (g (snd kv))) fd xs
     = assign fd (map (\<lambda>kv. (h (fst kv), g (snd kv))) xs)"
  unfolding assign_def by (induction xs arbitrary: fd) simp_all

lemma latest_update_None: "latest_update kvs k = None \<longleftrightarrow> k \<notin> fst ` set kvs"
  by (auto simp: latest_update_def Let_def filter_empty_conv)

lemma dict_get_flatten:
  "dict_get (flatten now td) k
     = map_option na0
         (case latest_update
                 (map (\<lambda>kv. (''health_'' @ replace (lower (fst kv)) '' '' ''_'', PStr (snd kv)))
                      (health_items (fst (dict_pop td ''health'' (PDict []))))) k of
            Some v \<Rightarrow> Some v
          | None \<Rightarrow> if k = ''timestamp'' then Some (PStr now)
                    else if k = ''health'' then None else dict_get td k)"
proof -
  obtain hd fd where pop: "dict_pop td ''health'' (PDict []) = (hd, fd)"
    by (cases "dict_pop td ''health'' (PDict [])")
  have fd: "dict_get fd k' = (if k' = ''health'' then None else dict_get td k')" for k'
    using dict_get_pop [of td "''health''" "PDict []" k'] by (simp add: pop)
  have fold: "foldl (\<lambda>fd kv. dict_set fd (''health_'' @ replace (lower (fst kv)) '' '' ''_'')
                                         (PStr (snd kv))) x ys
      = assign x (map (\<lambda>kv. (''health_'' @ replace (lower (fst kv)) '' '' ''_'', PStr (snd kv))) ys)"
    for x ys
    by (rule foldl_dict_set_assign [of "\<lambda>k. ''health_'' @ replace (lower k) '' '' ''_''" PStr])
  have "flatten now td
      = map (\<lambda>kv. (fst kv, na0 (snd kv)))
          (assign (dict_set fd ''timestamp'' (PStr now))
             (map (\<lambda>kv. (''health_'' @ replace (lower (fst kv)) '' '' ''_'', PStr (snd kv)))
                  (health_items hd)))"
    unfolding flatten_def dict_copy_def Let_def pop prod.case fold na0_def ..
  then show ?thesis
    by (simp add: dict_get_map_values dict_get_assign dict_get_set fd pop split: option.splits)
qed


lemma csv_row_cells:
  "csv_row (row_data flat)
     = map (\<lambda>k. py_str (na0 (case dict_get flat k of None \<Rightarrow> PInt 0 | Some v \<Rightarrow> v))) header"
proof -
  have "dict_get (map (\<lambda>k. (k, f k)) xs) k = (if k \<in> set xs then Some (f k) else None)"
    for f :: "string \<Rightarrow> pyval" and xs k
    unfolding dict_get_def by (induction xs) auto
  then show ?thesis
    unfolding csv_row_def row_data_def Let_def na0_def by simp
qed

lemma column_csv_row:
  "column (csv_row (row_data flat)) k
     = (if k \<in> set header
        then Some (py_str (na0 (case dict_get flat k of None \<Rightarrow> PInt 0 | Some v \<Rightarrow> v)))
        else None)"
  unfolding column_def csv_row_cells by (simp add: map_of_zip_map)

lemma scalar_key_facts:
  assumes "k \<in> set scalar_keys"
  shows "k \<in> set header" "k \<noteq> ''timestamp''" "k \<noteq> ''health''" "k \<noteq> ''health_'' @ x"
  using assms by (auto simp: scalar_keys_def header_def)

lemma scalar_flatten:
  assumes "k \<in> set scalar_keys"
  shows "dict_get (flatten now td) k = map_option na0 (dict_get td k)"
proof -
  let ?hs = "map (\<lambda>kv. (''health_'' @ replace (lower (fst kv)) '' '' ''_'', PStr (snd kv)))
               (health_items (fst (dict_pop td ''health'' (PDict []))))"
  have "k \<notin> fst ` set ?hs"
  proof
    assume "k \<in> fst ` set ?hs"
    then obtain x where "k = ''health_'' @ x"
      by (auto simp del: append.simps)
    then show False
      using scalar_key_facts(4) [OF assms, of x] by simp
  qed
  then have "latest_update ?hs k = None"
    unfolding latest_update_None .
  then show ?thesis
    unfolding dict_get_flatten using scalar_key_facts(2,3) [OF assms] by simp
qed

lemma str_int_0: "py_str (PInt 0) = ''0''"
  by (simp add: str_int_def str_nat.simps digit_char_def)

lemma scalar_column:
  assumes "k \<in> set scalar_keys"
  shows "column (csv_row (row_data (flatten now td))) k
           = Some (case dict_get td k of None \<Rightarrow> ''0'' | Some v \<Rightarrow> py_str (na0 v))"
  unfolding column_csv_row scalar_flatten [OF assms]
  using scalar_key_facts(1) [OF assms] str_int_0
  by (simp add: na0_def split: option.splits)

lemma all_unavailable_row:
  "tl (csv_row (row_data (flatten now initial_telemetry_data))) = replicate 22 ''0''"
proof -
  have h: "fst (dict_pop initial_telemetry_data ''health'' (PDict [])) = PDict initial_health"
    by (simp add: dict_pop_def initial_telemetry_data_def)
  have hk: "map (\<lambda>kv. (''health_'' @ replace (lower (fst kv)) '' '' ''_'', PStr (snd kv))) initial_health
    = [(''health_accelerometer_calibration'', PStr ''N/A''), (''health_armable'', PStr ''N/A''),
       (''health_global_position'', PStr ''N/A''), (''health_gyrometer_calibration'', PStr ''N/A''),
       (''health_home_position'', PStr ''N/A''), (''health_local_position'', PStr ''N/A''),
       (''health_magnetometer_calibration'', PStr ''N/A'')]"
    by (simp add: initial_health_def lower_def lower_char_def startswith_def)
  have cell: "py_str (na0 (case dict_get (flatten now initial_telemetry_data) k of
                              None \<Rightarrow> PInt 0 | Some v \<Rightarrow> v)) = ''0''"
    if "k \<in> set (tl header)" for k
    using that str_int_0 unfolding dict_get_flatten h health_items.simps hk
    by (auto simp: header_def latest_update_def na0_def initial_telemetry_data_def dict_get_def)
  have "tl (csv_row (row_data (flatten now initial_telemetry_data)))
      = map (\<lambda>k. py_str (na0 (case dict_get (flatten now initial_telemetry_data) k of
                              None \<Rightarrow> PInt 0 | Some v \<Rightarrow> v))) (tl header)"
    unfolding csv_row_cells by (simp add: map_tl)
  also have "\<dots> = map (\<lambda>k. ''0'') (tl header)"
    using cell by (intro map_cong) auto
  also have "\<dots> = replicate 22 ''0''"
    by (simp add: header_def eval_nat_numeral)
  finally show ?thesis .
qed


lemma digit_char_digits: "digit_char n \<in> digits"
proof -
  have "nat (n mod 10) < length ''0123456789''" by simp
  then have "''0123456789'' ! nat (n mod 10) \<in> set ''0123456789''" by (rule nth_mem)
  then show ?thesis
    unfolding digit_char_def digits_def .
qed

lemma str_nat_digits: "set (str_nat n) \<subseteq> digits"
proof (induction n rule: str_nat.induct)
  case (1 n)
  show ?case
  proof (cases "n < 10")
    case True
    then show ?thesis by (simp add: str_nat.simps [of n] digit_char_digits)
  next
    case False
    then show ?thesis using 1 by (simp add: str_nat.simps [of n] digit_char_digits)
  qed
qed

lemma str_nat_nonempty: "str_nat n \<noteq> []"
  by (simp add: str_nat.simps [of n])

lemma str_nat_length: "0 < d \<Longrightarrow> n < 10 ^ d \<Longrightarrow> length (str_nat n) \<le> d"
proof (induction n arbitrary: d rule: str_nat.induct)
  case (1 n)
  show ?case
  proof (cases "n < 10")
    case True
    then show ?thesis using "1.prems" by (simp add: str_nat.simps [of n])
  next
    case False
    obtain d' where d: "d = Suc d'" using "1.prems"(1) by (cases d) auto
    have "d' \<noteq> 0" using False "1.prems"(2) d by (cases d') auto
    moreover have "n div 10 < 10 ^ d'"
    proof -
      define k :: int where "k = 10 ^ d'"
      have "n < 10 * k" using "1.prems"(2) d by (simp add: k_def)
      then have "n div 10 < k" by presburger
      then show ?thesis by (simp add: k_def)
    qed
    ultimately have "length (str_nat (n div 10)) \<le> d'"
      using "1.IH" [OF False, of d'] by simp
    then show ?thesis using False d by (simp add: str_nat.simps [of n])
  qed
qed

lemma N_not_digit: "CHR ''N'' \<notin> digits"
  by (simp add: digits_def)

lemma fmt_fixed_no_N: "CHR ''N'' \<notin> set (fmt_fixed d x)"
proof (cases x)
  case (Finite q)
  have "CHR ''N'' \<notin> set (str_nat m)" for m
    using str_nat_digits [of m] N_not_digit by auto
  then show ?thesis
    unfolding Finite by (simp add: Let_def zfill_def)
qed simp_all

lemma fmt_fixed_not_NA: "fmt_fixed d x \<noteq> ''N/A''"
proof
  assume "fmt_fixed d x = ''N/A''"
  then have "CHR ''N'' \<in> set (fmt_fixed d x)" by simp
  then show False using fmt_fixed_no_N by blast
qed

lemma fmt_fixed_fraction:
  assumes "0 < d"
  shows "\<exists>ip fp. fmt_fixed d (Finite q) = ip @ ''.'' @ fp \<and> length fp = d \<and> set fp \<subseteq> digits"
proof -
  define n where "n = round_half_even (\<bar>q\<bar> * 10 ^ d)"
  define fp where "fp = zfill d (str_nat (n mod 10 ^ d))"
  define ip where "ip = (if q < 0 then ''-'' else []) @ str_nat (n div 10 ^ d)"
  have "n mod 10 ^ d < 10 ^ d" by simp
  then have len: "length (str_nat (n mod 10 ^ d)) \<le> d"
    using assms by (intro str_nat_length)
  then have "length fp = d"
    by (simp add: fp_def zfill_def)
  moreover have "set fp \<subseteq> digits"
    using str_nat_digits [of "n mod 10 ^ d"] by (auto simp: fp_def zfill_def digits_def)
  moreover have "fmt_fixed d (Finite q) = ip @ ''.'' @ fp"
    using assms by (simp add: Let_def n_def fp_def ip_def)
  ultimately show ?thesis by blast
qed


lemma log_to_csv_store: "telemetry_data (log_to_csv ticks w) = telemetry_data w"
  by (induction ticks arbitrary: w) auto

lemma fmt_fixed_fraction_digits:
  assumes "0 < d"
  shows "fraction_digits d (fmt_fixed d (Finite q))"
proof -
  obtain ip fp where s: "fmt_fixed d (Finite q) = ip @ ''.'' @ fp" "length fp = d"
      "set fp \<subseteq> digits"
    using fmt_fixed_fraction [OF assms] by blast
  have "length (ip @ ''.'' @ fp) - Suc d = length ip"
    using s(2) by simp
  moreover have "length (ip @ ''.'' @ fp) - d = Suc (length ip)"
    using s(2) by simp
  ultimately show ?thesis
    unfolding fraction_digits_def s(1) using s(2,3) by (auto simp: list_all_iff)
qed

lemma float_fields_stored:
  assumes "(k, d, x) \<in> set (float_fields i)"
  shows "latest_update (updates i) k = Some (PStr (fmt_fixed d x))"
    and "k \<in> set scalar_keys" and "0 < d"
proof -
  show "latest_update (updates i) k = Some (PStr (fmt_fixed d x))"
    using assms
    by (cases i)
       (auto simp: latest_update_def position_updates_def attitude_updates_def
          battery_updates_def rc_updates_def split: option.splits simp del: fmt_fixed.simps)
  show "k \<in> set scalar_keys"
    using assms by (cases i) (auto simp: scalar_keys_def split: option.splits)
  show "0 < d"
    using assms by (cases i) (auto split: option.splits)
qed

lemma float_field_column:
  assumes "(k, d, x) \<in> set (float_fields i)"
  shows "column (csv_row (row_data (flatten now (telemetry_data (exec_step (FetchItem i) w))))) k
           = Some (fmt_fixed d x)"
proof -
  have "dict_get (telemetry_data (exec_step (FetchItem i) w)) k = Some (PStr (fmt_fixed d x))"
    by (simp add: dict_get_assign float_fields_stored(1) [OF assms])
  then show ?thesis
    unfolding scalar_column [OF float_fields_stored(2) [OF assms]]
    by (simp add: na0_def fmt_fixed_not_NA)
qed

text \<open>
  C5 (as amended). The row written for the dictionary in which every field is
  \<^verbatim>\<open>"N/A"\<close> has 0 in each of the 22 columns after the time stamp. An iteration of
  \<^verbatim>\<open>log_to_csv\<close>, and any number of them, leaves \<^verbatim>\<open>telemetry_data\<close> as it was: the
  zeros exist in the row only. A scalar field that holds a string other than the marker is
  written as that very string. So after an item has been stored, the column of each of its
  readings holds the reading in the format of its field: six fraction digits for latitude
  and longitude, two for the altitudes, roll, pitch, yaw and the voltage, one for the
  battery percentage and the RC signal. That text is never the marker. For a finite
  reading it ends in a point followed by exactly that number of digits; a reading that is
  not a number or is infinite is written as \<^verbatim>\<open>nan\<close>, \<^verbatim>\<open>inf\<close> or \<^verbatim>\<open>-inf\<close>.
\<close>

theorem serialization_substitutes_zero:
  "tl (csv_row (row_data (flatten now initial_telemetry_data))) = replicate 22 ''0''
   \<and> telemetry_data (log_tick fault now w) = telemetry_data w
   \<and> telemetry_data (log_to_csv ticks w) = telemetry_data w
   \<and> (k \<in> set scalar_keys \<longrightarrow> dict_get td k = Some (PStr s) \<longrightarrow>
        column (csv_row (row_data (flatten now td))) k = Some (if s = ''N/A'' then ''0'' else s))
   \<and> ((k, d, x) \<in> set (float_fields i) \<longrightarrow>
        column (csv_row (row_data (flatten now (telemetry_data (exec_step (FetchItem i) w))))) k
          = Some (fmt_fixed d x)
      \<and> 0 < d
      \<and> (case x of
           Finite q \<Rightarrow> fraction_digits d (fmt_fixed d x)
         | NaN \<Rightarrow> fmt_fixed d x = ''nan''
         | Inf negative \<Rightarrow> fmt_fixed d x = (if negative then ''-inf'' else ''inf'')))
   \<and> float_fields (PositionItem (Position la lo ab re))
       = [(''lat'', 6, la), (''lon'', 6, lo), (''alt'', 2, re), (''abs_alt'', 2, ab)]
   \<and> float_fields (AttitudeItem (Attitude ro pt ya))
       = [(''roll'', 2, ro), (''pitch'', 2, pt), (''yaw'', 2, ya)]
   \<and> float_fields (BatteryItem (Battery vo pe)) = [(''voltage'', 2, vo), (''battery'', 1, pe)]
   \<and> float_fields (RcItem (RcStatus (Some st))) = [(''rc_signal'', 1, st)]
   \<and> fmt_fixed d x \<noteq> ''N/A''
   \<and> (0 < d \<longrightarrow>
        (\<exists>ip fp. fmt_fixed d (Finite q) = ip @ ''.'' @ fp \<and> length fp = d \<and> set fp \<subseteq> digits))"
proof (intro conjI impI)
  show "tl (csv_row (row_data (flatten now initial_telemetry_data))) = replicate 22 ''0''"
    by (rule all_unavailable_row)
  show "telemetry_data (log_tick fault now w) = telemetry_data w"
    by (rule world_log_tick(1))
  show "telemetry_data (log_to_csv ticks w) = telemetry_data w"
    by (rule log_to_csv_store)
  show "column (csv_row (row_data (flatten now td))) k = Some (if s = ''N/A'' then ''0'' else s)"
    if "k \<in> set scalar_keys" and "dict_get td k = Some (PStr s)"
    unfolding scalar_column [OF that(1)] that(2) using str_int_0 by (simp add: na0_def)
  show "column (csv_row (row_data (flatten now (telemetry_data (exec_step (FetchItem i) w))))) k
          = Some (fmt_fixed d x)"
    if "(k, d, x) \<in> set (float_fields i)"
    using that by (rule float_field_column)
  show "0 < d" if "(k, d, x) \<in> set (float_fields i)"
    using that by (rule float_fields_stored(3))
  show "case x of
           Finite q \<Rightarrow> fraction_digits d (fmt_fixed d x)
         | NaN \<Rightarrow> fmt_fixed d x = ''nan''
         | Inf negative \<Rightarrow> fmt_fixed d x = (if negative then ''-inf'' else ''inf'')"
    if "(k, d, x) \<in> set (float_fields i)"
    using float_fields_stored(3) [OF that]
    by (cases x) (simp_all add: fmt_fixed_fraction_digits del: fmt_fixed.simps(1))
  show "fmt_fixed d x \<noteq> ''N/A''"
    by (rule fmt_fixed_not_NA)
  show "\<exists>ip fp. fmt_fixed d (Finite q) = ip @ ''.'' @ fp \<and> length fp = d \<and> set fp \<subseteq> digits"
    if "0 < d"
    using that by (rule fmt_fixed_fraction)
qed simp_all

theorem serialization_substitutes_zero_witness:
  "''lat'' \<in> set scalar_keys
   \<and> dict_get (assign initial_telemetry_data
                 (position_updates (Position (Finite (47397743 / 1000000)) (Finite (8545594 / 1000000))
                                             (Finite (48825 / 100)) (Finite (25 / 2)))))
        ''lat'' = Some (PStr ''47.397743'')
   \<and> column (csv_row (row_data (flatten ''2024-05-01T12:00:00.000001''
               (assign initial_telemetry_data
                 (position_updates (Position (Finite (47397743 / 1000000)) (Finite (8545594 / 1000000))
                                             (Finite (48825 / 100)) (Finite (25 / 2)))))))) ''lat''
       = Some ''47.397743''
   \<and> (''lat'', 6, Finite (47397743 / 1000000))
       \<in> set (float_fields (PositionItem (Position (Finite (47397743 / 1000000))
                  (Finite (8545594 / 1000000)) (Finite (48825 / 100)) (Finite (25 / 2)))))
   \<and> column (csv_row (row_data (flatten ''2024-05-01T12:00:00.000001''
               (telemetry_data (exec_step
                  (FetchItem (PositionItem (Position (Finite (47397743 / 1000000))
                     (Finite (8545594 / 1000000)) (Finite (48825 / 100)) (Finite (25 / 2)))))
                  (module_init ''20240501_120000'' Map.empty)))))) ''lat''
       = Some ''47.397743''
   \<and> fraction_digits 6 ''47.397743''
   \<and> (0 :: nat) < 6
   \<and> (\<exists>ip fp. fmt_fixed 6 (Finite (47397743 / 1000000)) = ip @ ''.'' @ fp
          \<and> length fp = 6 \<and> set fp \<subseteq> digits)
   \<and> csv_row (row_data (flatten ''2024-05-01T12:00:00.000001''
          (telemetry_data (exec_steps
             [FetchItem (PositionItem (Position (Finite (47397742 / 1000000)) (Finite (8545594 / 1000000))
                                                  (Finite (48825 / 100)) (Finite (25 / 2)))),
              FetchItem (AttitudeItem (Attitude (Finite (- 3 / 8)) (Finite (1 / 8)) (Finite 90))),
              FetchItem (BatteryItem (Battery (Finite (1234 / 100)) (Finite (175 / 2)))),
              FetchItem (GpsItem (GpsInfo ''FIX_3D'' 12)),
              FetchItem (FlightModeItem ''HOLD''),
              FetchItem (ArmedItem True),
              FetchItem (RcItem (RcStatus (Some (Finite 100)))),
              FetchItem (HealthItem (Health True True True True False True True))]
             (module_init ''20240501_120000'' Map.empty)))))
        = [''2024-05-01T12:00:00.000001'', ''47.397742'', ''8.545594'', ''12.50'', ''488.25'', ''0'',
           ''-0.38'', ''0.12'', ''90.00'', ''12.34'', ''87.5'', ''FIX_3D'', ''12'', ''HOLD'', ''Yes'',
           ''100.0'', ''OK'', ''OK'', ''FAIL'', ''OK'', ''OK'', ''OK'', ''OK'']"
proof -
  define pos where "pos = Position (Finite (47397743 / 1000000)) (Finite (8545594 / 1000000))
                                             (Finite (48825 / 100)) (Finite (25 / 2))"
  define td where "td = assign initial_telemetry_data (position_updates pos)"
  define w where "w = module_init ''20240501_120000'' Map.empty"
  have f: "fmt_fixed 6 (Finite (47397743 / 1000000)) = ''47.397743''"
    by code_simp
  have k: "''lat'' \<in> set scalar_keys"
    by (simp add: scalar_keys_def)
  have "latest_update (position_updates pos) ''lat''
          = Some (PStr (fmt_fixed 6 (Finite (47397743 / 1000000))))"
    by (simp add: pos_def position_updates_def latest_update_def del: fmt_fixed.simps)
  then have v: "dict_get td ''lat'' = Some (PStr ''47.397743'')"
    unfolding td_def dict_get_assign f by simp
  have m: "(''lat'', 6, Finite (47397743 / 1000000)) \<in> set (float_fields (PositionItem pos))"
    by (simp add: pos_def)
  have d: "(0 :: nat) < 6" by simp
  note T = serialization_substitutes_zero
        [where now = "''2024-05-01T12:00:00.000001''" and w = w and k = "''lat''" and td = td
           and s = "''47.397743''" and d = 6 and x = "Finite (47397743 / 1000000)"
           and i = "PositionItem pos" and q = "47397743 / 1000000"]
  have col: "column (csv_row (row_data (flatten ''2024-05-01T12:00:00.000001'' td))) ''lat''
               = Some (if ''47.397743'' = ''N/A'' then ''0'' else ''47.397743'')"
    using T k v by blast
  have ne: "(if ''47.397743'' = ''N/A'' then ''0'' else ''47.397743'') = ''47.397743''"
    by simp
  have col2: "column (csv_row (row_data (flatten ''2024-05-01T12:00:00.000001''
               (telemetry_data (exec_step (FetchItem (PositionItem pos)) w))))) ''lat''
               = Some (fmt_fixed 6 (Finite (47397743 / 1000000)))"
    using T m by blast
  have "case Finite (47397743 / 1000000) of
           Finite q \<Rightarrow> fraction_digits 6 (fmt_fixed 6 (Finite (47397743 / 1000000)))
         | NaN \<Rightarrow> fmt_fixed 6 (Finite (47397743 / 1000000)) = ''nan''
         | Inf negative \<Rightarrow> fmt_fixed 6 (Finite (47397743 / 1000000))
                            = (if negative then ''-inf'' else ''inf'')"
    using T m by blast
  then have fd: "fraction_digits 6 ''47.397743''"
    unfolding pyfloat.case f .
  have frac: "\<exists>ip fp. fmt_fixed 6 (Finite (47397743 / 1000000)) = ip @ ''.'' @ fp
          \<and> length fp = 6 \<and> set fp \<subseteq> digits"
    using T d by blast
  have row: "csv_row (row_data (flatten ''2024-05-01T12:00:00.000001''
         (telemetry_data (exec_steps
            [FetchItem (PositionItem (Position (Finite (47397742 / 1000000)) (Finite (8545594 / 1000000))
                                                 (Finite (48825 / 100)) (Finite (25 / 2)))),
             FetchItem (AttitudeItem (Attitude (Finite (- 3 / 8)) (Finite (1 / 8)) (Finite 90))),
             FetchItem (BatteryItem (Battery (Finite (1234 / 100)) (Finite (175 / 2)))),
             FetchItem (GpsItem (GpsInfo ''FIX_3D'' 12)),
             FetchItem (FlightModeItem ''HOLD''),
             FetchItem (ArmedItem True),
             FetchItem (RcItem (RcStatus (Some (Finite 100)))),
             FetchItem (HealthItem (Health True True True True False True True))]
            (module_init ''20240501_120000'' Map.empty)))))
       = [''2024-05-01T12:00:00.000001'', ''47.397742'', ''8.545594'', ''12.50'', ''488.25'', ''0'',
          ''-0.38'', ''0.12'', ''90.00'', ''12.34'', ''87.5'', ''FIX_3D'', ''12'', ''HOLD'', ''Yes'',
          ''100.0'', ''OK'', ''OK'', ''FAIL'', ''OK'', ''OK'', ''OK'', ''OK'']"
    by code_simp
  show ?thesis
    using k v m d col [unfolded ne] col2 [unfolded f] fd frac row
    unfolding td_def pos_def w_def by blast
qed

text \<open>
  A position whose latitude is not a number, stored together with an item of every other
  fetcher: the latitude column of the row is \<^verbatim>\<open>nan\<close>, which has no fraction digits. The
  speed column is 0 because no fetcher assigns to \<^verbatim>\<open>speed\<close>; with a value under that key
  as well, every field is populated and the latitude column is \<^verbatim>\<open>nan\<close> all the same.
\<close>

theorem nan_reading_counterexample:
  "csv_row (row_data (flatten ''2024-05-01T12:00:00.000001''
      (telemetry_data (exec_steps
         [FetchItem (PositionItem (Position NaN (Finite (8545594 / 1000000))
                                            (Finite (48825 / 100)) (Finite (25 / 2)))),
          FetchItem (AttitudeItem (Attitude (Finite (- 3 / 8)) (Finite (1 / 8)) (Finite 90))),
          FetchItem (BatteryItem (Battery (Finite (1234 / 100)) (Finite (175 / 2)))),
          FetchItem (GpsItem (GpsInfo ''FIX_3D'' 12)),
          FetchItem (FlightModeItem ''HOLD''),
          FetchItem (ArmedItem True),
          FetchItem (RcItem (RcStatus (Some (Finite 100)))),
          FetchItem (HealthItem (Health True True True True False True True))]
         (module_init ''20240501_120000'' Map.empty)))))
     = [''2024-05-01T12:00:00.000001'', ''nan'', ''8.545594'', ''12.50'', ''488.25'', ''0'',
        ''-0.38'', ''0.12'', ''90.00'', ''12.34'', ''87.5'', ''FIX_3D'', ''12'', ''HOLD'', ''Yes'',
        ''100.0'', ''OK'', ''OK'', ''FAIL'', ''OK'', ''OK'', ''OK'', ''OK'']
   \<and> csv_row (row_data (flatten ''2024-05-01T12:00:00.000001''
      (assign
         (telemetry_data (exec_steps
            [FetchItem (PositionItem (Position NaN (Finite (8545594 / 1000000))
                                               (Finite (48825 / 100)) (Finite (25 / 2)))),
             FetchItem (AttitudeItem (Attitude (Finite (- 3 / 8)) (Finite (1 / 8)) (Finite 90))),
             FetchItem (BatteryItem (Battery (Finite (1234 / 100)) (Finite (175 / 2)))),
             FetchItem (GpsItem (GpsInfo ''FIX_3D'' 12)),
             FetchItem (FlightModeItem ''HOLD''),
             FetchItem (ArmedItem True),
             FetchItem (RcItem (RcStatus (Some (Finite 100)))),
             FetchItem (HealthItem (Health True True True True False True True))]
            (module_init ''20240501_120000'' Map.empty)))
         [(''speed'', PStr ''3.20'')])))
     = [''2024-05-01T12:00:00.000001'', ''nan'', ''8.545594'', ''12.50'', ''488.25'', ''3.20'',
        ''-0.38'', ''0.12'', ''90.00'', ''12.34'', ''87.5'', ''FIX_3D'', ''12'', ''HOLD'', ''Yes'',
        ''100.0'', ''OK'', ''OK'', ''FAIL'', ''OK'', ''OK'', ''OK'', ''OK'']
   \<and> \<not> fraction_digits 6 ''nan''"
proof -
  have "\<not> fraction_digits 6 ''nan''"
    by (simp add: fraction_digits_def)
  moreover have "csv_row (row_data (flatten ''2024-05-01T12:00:00.000001''
      (telemetry_data (exec_steps
         [FetchItem (PositionItem (Position NaN (Finite (8545594 / 1000000))
                                            (Finite (48825 / 100)) (Finite (25 / 2)))),
          FetchItem (AttitudeItem (Attitude (Finite (- 3 / 8)) (Finite (1 / 8)) (Finite 90))),
          FetchItem (BatteryItem (Battery (Finite (1234 / 100)) (Finite (175 / 2)))),
          FetchItem (GpsItem (GpsInfo ''FIX_3D'' 12)),
          FetchItem (FlightModeItem ''HOLD''),
          FetchItem (ArmedItem True),
          FetchItem (RcItem (RcStatus (Some (Finite 100)))),
          FetchItem (HealthItem (Health True True True True False True True))]
         (module_init ''20240501_120000'' Map.empty)))))
     = [''2024-05-01T12:00:00.000001'', ''nan'', ''8.545594'', ''12.50'', ''488.25'', ''0'',
        ''-0.38'', ''0.12'', ''90.00'', ''12.34'', ''87.5'', ''FIX_3D'', ''12'', ''HOLD'', ''Yes'',
        ''100.0'', ''OK'', ''OK'', ''FAIL'', ''OK'', ''OK'', ''OK'', ''OK'']"
    by code_simp
  moreover have "csv_row (row_data (flatten ''2024-05-01T12:00:00.000001''
      (assign
         (telemetry_data (exec_steps
            [FetchItem (PositionItem (Position NaN (Finite (8545594 / 1000000))
                                               (Finite (48825 / 100)) (Finite (25 / 2)))),
             FetchItem (AttitudeItem (Attitude (Finite (- 3 / 8)) (Finite (1 / 8)) (Finite 90))),
             FetchItem (BatteryItem (Battery (Finite (1234 / 100)) (Finite (175 / 2)))),
             FetchItem (GpsItem (GpsInfo ''FIX_3D'' 12)),
             FetchItem (FlightModeItem ''HOLD''),
             FetchItem (ArmedItem True),
             FetchItem (RcItem (RcStatus (Some (Finite 100)))),
             FetchItem (HealthItem (Health True True True True False True True))]
            (module_init ''20240501_120000'' Map.empty)))
         [(''speed'', PStr ''3.20'')])))
     = [''2024-05-01T12:00:00.000001'', ''nan'', ''8.545594'', ''12.50'', ''488.25'', ''3.20'',
        ''-0.38'', ''0.12'', ''90.00'', ''12.34'', ''87.5'', ''FIX_3D'', ''12'', ''HOLD'', ''Yes'',
        ''100.0'', ''OK'', ''OK'', ''FAIL'', ''OK'', ''OK'', ''OK'', ''OK'']"
    by code_simp
  ultimately show ?thesis by blast
qed

section \<open>The header row of the log file\<close>

lemma header_writes_append: "header_writes (xs @ ys) = header_writes xs + header_writes ys"
  by (induction xs rule: header_writes.induct) simp_all

lemma data_rows_append: "data_rows (xs @ ys) = data_rows xs @ data_rows ys"
  by (induction xs rule: data_rows.induct) simp_all

lemma new_events_append: "trace w' = trace w @ evs \<Longrightarrow> new_events w w' = evs"
  by (simp add: new_events_def)

lemma files_append_rows:
  "files (append_rows rs w) (filename w)
     = Some ((case files w (filename w) of None \<Rightarrow> [] | Some old \<Rightarrow> old) @ rs)"
  by (simp add: append_rows_def)

lemma log_tick_trace:
  "trace (log_tick fault now w)
     = trace w @
       (case fault of
          NoFault \<Rightarrow>
            (if files w (filename w) = None then [EvWriteHeader header] else []) @
            [EvWriteRow (csv_row (row_data (flatten now (telemetry_data w))))]
        | OpenReadRaises e \<Rightarrow> [EvPrint (''Error writing to CSV: '' @ e)]
        | OpenAppendRaises e \<Rightarrow> [EvPrint (''Error writing to CSV: '' @ e)]
        | WriteRowRaises e \<Rightarrow>
            (if files w (filename w) = None then [EvWriteHeader header] else []) @
            [EvPrint (''Error writing to CSV: '' @ e)]) @
       [EvSleep 1]"
  by (cases fault) (simp_all add: log_tick_def Let_def write_header_def write_row_def)

lemma log_tick_files:
  "files (log_tick fault now w) (filename w)
     = (case fault of
          NoFault \<Rightarrow>
            Some ((case files w (filename w) of None \<Rightarrow> [header] | Some rows \<Rightarrow> rows) @
                  [csv_row (row_data (flatten now (telemetry_data w)))])
        | OpenReadRaises e \<Rightarrow> files w (filename w)
        | OpenAppendRaises e \<Rightarrow> files w (filename w)
        | WriteRowRaises e \<Rightarrow>
            Some (case files w (filename w) of None \<Rightarrow> [header] | Some rows \<Rightarrow> rows))"
  by (cases fault)
     (auto simp: log_tick_def Let_def write_header_def write_row_def append_rows_def
           split: option.splits)

lemma exec_step_trace_extends: "\<exists>evs. trace (exec_step s w) = trace w @ evs"
  by (cases s) (auto simp: log_tick_trace display_tick_def split: option.splits sum.splits)

lemma exec_step_existing_file:
  assumes "files w (filename w) = Some rows" and "s \<noteq> LogFileRemoved"
  shows "\<exists>evs. trace (exec_step s w) = trace w @ evs \<and> header_writes evs = 0
           \<and> files (exec_step s w) (filename w) = Some (rows @ data_rows evs)"
proof (cases s)
  case (LogTick fault now)
  show ?thesis
    unfolding LogTick exec_step.simps log_tick_trace log_tick_files
    using assms(1) by (cases fault) (simp_all add: header_writes_append data_rows_append)
next
  case (DisplayTick raised ts)
  show ?thesis
    unfolding DisplayTick using assms(1)
    by (auto simp: display_tick_def split: option.splits sum.splits)
qed (use assms in simp_all)

lemma exec_steps_existing_file:
  assumes "files w (filename w) = Some rows" and "LogFileRemoved \<notin> set steps"
  shows "\<exists>evs. trace (exec_steps steps w) = trace w @ evs \<and> header_writes evs = 0
           \<and> files (exec_steps steps w) (filename w) = Some (rows @ data_rows evs)"
  using assms
proof (induction steps arbitrary: w rows)
  case Nil
  then show ?case by (simp add: exec_steps_def)
next
  case (Cons s steps)
  have s: "s \<noteq> LogFileRemoved" and rest: "LogFileRemoved \<notin> set steps"
    using Cons.prems(2) by auto
  obtain evs1 where 1: "trace (exec_step s w) = trace w @ evs1" "header_writes evs1 = 0"
      "files (exec_step s w) (filename w) = Some (rows @ data_rows evs1)"
    using exec_step_existing_file [OF Cons.prems(1) s] by blast
  have "files (exec_step s w) (filename (exec_step s w)) = Some (rows @ data_rows evs1)"
    using 1(3) by simp
  then obtain evs2 where 2:
      "trace (exec_steps steps (exec_step s w)) = trace (exec_step s w) @ evs2"
      "header_writes evs2 = 0"
      "files (exec_steps steps (exec_step s w)) (filename (exec_step s w))
         = Some ((rows @ data_rows evs1) @ data_rows evs2)"
    using Cons.IH [OF _ rest] by blast
  have step: "exec_steps (s # steps) w = exec_steps steps (exec_step s w)"
    by (simp add: exec_steps_def)
  have "trace (exec_steps (s # steps) w) = trace w @ (evs1 @ evs2)"
    using 1(1) 2(1) by (simp add: step)
  moreover have "header_writes (evs1 @ evs2) = 0"
    using 1(2) 2(2) by (simp add: header_writes_append)
  moreover have "files (exec_steps (s # steps) w) (filename w)
      = Some (rows @ data_rows (evs1 @ evs2))"
    using 2(3) by (simp add: step data_rows_append)
  ultimately show ?case by blast
qed

lemma log_to_csv_steps:
  "log_to_csv ticks w = exec_steps (map (\<lambda>t. LogTick (fst t) (snd t)) ticks) w"
  by (induction ticks arbitrary: w) (auto simp: exec_steps_def)

text \<open>
  C9. Let the log file exist when some stretch of the session begins, and let nobody remove
  it. Then no step of that stretch writes a header row, whatever the other tasks do and
  whatever faults the iterations of \<^verbatim>\<open>log_to_csv\<close> meet: the file afterwards is the file
  before followed by the data rows written, and nothing else.
\<close>

theorem existing_file_gets_no_header:
  assumes "files w (filename w) = Some rows" and "LogFileRemoved \<notin> set steps"
  shows "header_writes (new_events w (exec_steps steps w)) = 0
       \<and> files (exec_steps steps w) (filename w)
           = Some (rows @ data_rows (new_events w (exec_steps steps w)))
       \<and> header_writes (new_events w (log_to_csv ticks w)) = 0
       \<and> files (log_to_csv ticks w) (filename w)
           = Some (rows @ data_rows (new_events w (log_to_csv ticks w)))"
proof -
  obtain evs where evs: "trace (exec_steps steps w) = trace w @ evs" "header_writes evs = 0"
      "files (exec_steps steps w) (filename w) = Some (rows @ data_rows evs)"
    using exec_steps_existing_file [OF assms] by blast
  have "LogFileRemoved \<notin> set (map (\<lambda>t. LogTick (fst t) (snd t)) ticks)"
    by auto
  then obtain evs' where evs': "trace (log_to_csv ticks w) = trace w @ evs'"
      "header_writes evs' = 0"
      "files (log_to_csv ticks w) (filename w) = Some (rows @ data_rows evs')"
    unfolding log_to_csv_steps using exec_steps_existing_file [OF assms(1)] by blast
  show ?thesis
    using evs evs' by (simp add: new_events_append)
qed

theorem existing_file_gets_no_header_witness:
  "files (module_init ''20240501_120000''
            [''flight_logs/telemetry_log_20240501_120000.csv'' \<mapsto> [header]])
         (filename (module_init ''20240501_120000''
            [''flight_logs/telemetry_log_20240501_120000.csv'' \<mapsto> [header]]))
     = Some [header]
   \<and> LogFileRemoved \<notin> set [LogTick NoFault ''t1'', FetchItem (ArmedItem True), LogTick NoFault ''t2'']
   \<and> header_writes
         (new_events
            (module_init ''20240501_120000''
               [''flight_logs/telemetry_log_20240501_120000.csv'' \<mapsto> [header]])
            (exec_steps [LogTick NoFault ''t1'', FetchItem (ArmedItem True), LogTick NoFault ''t2'']
               (module_init ''20240501_120000''
                  [''flight_logs/telemetry_log_20240501_120000.csv'' \<mapsto> [header]]))) = 0
   \<and> files
         (exec_steps [LogTick NoFault ''t1'', FetchItem (ArmedItem True), LogTick NoFault ''t2'']
            (module_init ''20240501_120000''
               [''flight_logs/telemetry_log_20240501_120000.csv'' \<mapsto> [header]]))
         ''flight_logs/telemetry_log_20240501_120000.csv''
     = Some [header,
             ''t1'' # replicate 22 ''0'',
             [''t2'', ''0'', ''0'', ''0'', ''0'', ''0'', ''0'', ''0'', ''0'', ''0'', ''0'', ''0'',
              ''0'', ''0'', ''Yes'', ''0'', ''0'', ''0'', ''0'', ''0'', ''0'', ''0'', ''0'']]"
proof -
  define w where "w = module_init ''20240501_120000''
            [''flight_logs/telemetry_log_20240501_120000.csv'' \<mapsto> [header]]"
  define steps where
    "steps = [LogTick NoFault ''t1'', FetchItem (ArmedItem True), LogTick NoFault ''t2'']"
  have fn: "filename w = ''flight_logs/telemetry_log_20240501_120000.csv''"
    by (simp add: w_def module_init_def)
  have h1: "files w (filename w) = Some [header]"
    unfolding fn by (simp add: w_def module_init_def)
  have h2: "LogFileRemoved \<notin> set steps"
    by (simp add: steps_def)
  note T = existing_file_gets_no_header [OF h1 h2, of "[]"]
  have rows: "data_rows (new_events w (exec_steps steps w))
      = [''t1'' # replicate 22 ''0'',
         [''t2'', ''0'', ''0'', ''0'', ''0'', ''0'', ''0'', ''0'', ''0'', ''0'', ''0'', ''0'',
          ''0'', ''0'', ''Yes'', ''0'', ''0'', ''0'', ''0'', ''0'', ''0'', ''0'', ''0'']]"
    unfolding w_def steps_def by code_simp
  have "header_writes (new_events w (exec_steps steps w)) = 0"
    using T by blast
  moreover have "files (exec_steps steps w) ''flight_logs/telemetry_log_20240501_120000.csv''
      = Some ([header] @ data_rows (new_events w (exec_steps steps w)))"
    using T unfolding fn by blast
  ultimately show ?thesis
    using h1 h2 unfolding rows unfolding w_def steps_def by simp
qed

lemma log_to_csv_snoc:
  "log_to_csv (ticks @ [(fault, now)]) w = log_tick fault now (log_to_csv ticks w)"
  by (induction ticks arbitrary: w) auto

text \<open>
  C10. Every iteration of \<^verbatim>\<open>log_to_csv\<close>, after any number of earlier ones, is the same
  step: it looks for the file and writes the header exactly when the file is absent at that
  moment, then the data row. When opening the file raises, the iteration writes nothing; a
  header is never written while the file exists. If the file is removed between two
  iterations, the next one creates it again with the header followed by its data row.
\<close>

theorem header_written_iff_file_absent:
  "log_to_csv (ticks @ [(fault, now)]) w = log_tick fault now (log_to_csv ticks w)
   \<and> new_events w (log_tick NoFault now w)
       = (if files w (filename w) = None then [EvWriteHeader header] else []) @
         [EvWriteRow (csv_row (row_data (flatten now (telemetry_data w)))), EvSleep 1]
   \<and> files (log_tick NoFault now w) (filename w)
       = Some ((case files w (filename w) of None \<Rightarrow> [header] | Some rows \<Rightarrow> rows) @
               [csv_row (row_data (flatten now (telemetry_data w)))])
   \<and> header_writes (new_events w (log_tick fault now w))
       = (if files w (filename w) = None \<and> opens_for_append fault then 1 else 0)
   \<and> files (exec_steps [LogTick NoFault t1, LogFileRemoved, LogTick NoFault t2] w) (filename w)
       = Some [header, csv_row (row_data (flatten t2 (telemetry_data w)))]
   \<and> new_events (exec_steps [LogTick NoFault t1, LogFileRemoved] w)
         (exec_steps [LogTick NoFault t1, LogFileRemoved, LogTick NoFault t2] w)
       = [EvWriteHeader header,
          EvWriteRow (csv_row (row_data (flatten t2 (telemetry_data w)))), EvSleep 1]"
proof (intro conjI)
  show "log_to_csv (ticks @ [(fault, now)]) w = log_tick fault now (log_to_csv ticks w)"
    by (rule log_to_csv_snoc)
  show "new_events w (log_tick NoFault now w)
       = (if files w (filename w) = None then [EvWriteHeader header] else []) @
         [EvWriteRow (csv_row (row_data (flatten now (telemetry_data w)))), EvSleep 1]"
    by (rule new_events_append) (simp add: log_tick_trace)
  show "files (log_tick NoFault now w) (filename w)
       = Some ((case files w (filename w) of None \<Rightarrow> [header] | Some rows \<Rightarrow> rows) @
               [csv_row (row_data (flatten now (telemetry_data w)))])"
    by (simp add: log_tick_files)
  have "new_events w (log_tick fault now w)
      = (case fault of
          NoFault \<Rightarrow>
            (if files w (filename w) = None then [EvWriteHeader header] else []) @
            [EvWriteRow (csv_row (row_data (flatten now (telemetry_data w))))]
        | OpenReadRaises e \<Rightarrow> [EvPrint (''Error writing to CSV: '' @ e)]
        | OpenAppendRaises e \<Rightarrow> [EvPrint (''Error writing to CSV: '' @ e)]
        | WriteRowRaises e \<Rightarrow>
            (if files w (filename w) = None then [EvWriteHeader header] else []) @
            [EvPrint (''Error writing to CSV: '' @ e)]) @
       [EvSleep 1]"
    by (rule new_events_append) (rule log_tick_trace)
  then show "header_writes (new_events w (log_tick fault now w))
       = (if files w (filename w) = None \<and> opens_for_append fault then 1 else 0)"
    by (cases fault) (simp_all add: header_writes_append)
  define w1 where "w1 = exec_steps [LogTick NoFault t1, LogFileRemoved] w"
  have w1: "files w1 (filename w) = None" "filename w1 = filename w"
      "telemetry_data w1 = telemetry_data w"
    by (simp_all add: w1_def exec_steps_def)
  have w2: "exec_steps [LogTick NoFault t1, LogFileRemoved, LogTick NoFault t2] w
              = log_tick NoFault t2 w1"
    by (simp add: w1_def exec_steps_def)
  show "files (exec_steps [LogTick NoFault t1, LogFileRemoved, LogTick NoFault t2] w) (filename w)
       = Some [header, csv_row (row_data (flatten t2 (telemetry_data w)))]"
    unfolding w2 using log_tick_files [of NoFault t2 w1] w1 by simp
  show "new_events (exec_steps [LogTick NoFault t1, LogFileRemoved] w)
         (exec_steps [LogTick NoFault t1, LogFileRemoved, LogTick NoFault t2] w)
       = [EvWriteHeader header,
          EvWriteRow (csv_row (row_data (flatten t2 (telemetry_data w)))), EvSleep 1]"
    unfolding w2 w1_def [symmetric]
    by (rule new_events_append) (simp add: log_tick_trace w1)
qed

section \<open>Failures of a fetcher stay inside its loop\<close>






section \<open>The supervisor\<close>

lemma world_connect [simp]:
  "telemetry_data (connect w) = telemetry_data w"
  "error_list (connect w) = error_list w"
  "filename (connect w) = filename w"
  "files (connect w) = files w"
  "trace (connect w) = trace w @ [EvConnect system_address, EvPrint ''Connecting to drone...'']"
  by (simp_all add: connect_def)

lemma world_await_connected [simp]:
  "telemetry_data (await_connected seen w) = telemetry_data w"
  "error_list (await_connected seen w) = error_list w"
  "filename (await_connected seen w) = filename w"
  "files (await_connected seen w) = files w"
  "trace (await_connected seen w)
     = trace w @ (if seen then [EvPrint connected_message] else [])"
  by (simp_all add: await_connected_def)

lemma world_fold_emit:
  "telemetry_data (fold (\<lambda>n. emit (f n)) ns w) = telemetry_data w"
  "error_list (fold (\<lambda>n. emit (f n)) ns w) = error_list w"
  "filename (fold (\<lambda>n. emit (f n)) ns w) = filename w"
  "files (fold (\<lambda>n. emit (f n)) ns w) = files w"
  "trace (fold (\<lambda>n. emit (f n)) ns w) = trace w @ map f ns"
  by (induction ns arbitrary: w; simp)+

lemma world_launch [simp]:
  "telemetry_data (launch w) = telemetry_data w"
  "error_list (launch w) = error_list w"
  "filename (launch w) = filename w"
  "files (launch w) = files w"
  "trace (launch w) = trace w @ map EvCreateTask task_names"
  by (simp_all add: launch_def world_fold_emit)

lemma world_retry [simp]:
  "telemetry_data (retry e ts w) = telemetry_data w"
  "error_list (retry e ts w) = add_error ts (''Main connection error: '' @ e) (error_list w)"
  "filename (retry e ts w) = filename w"
  "files (retry e ts w) = files w"
  "trace (retry e ts w) = trace w @ [EvSleep 5]"
  by (simp_all add: retry_def)

lemma add_error_last:
  "add_error ts m el \<noteq> []" "last (add_error ts m el) = error_entry (ts, m)"
proof -
  have "tl (el @ [x]) \<noteq> [] \<and> last (tl (el @ [x])) = x" if "5 < length (el @ [x])" for x :: string
    using that by (cases el) auto
  then show "add_error ts m el \<noteq> []" "last (add_error ts m el) = error_entry (ts, m)"
    by (auto simp: add_error_def Let_def error_entry_def MAX_ERRORS_DISPLAYED_def)
qed

lemma count_list_append: "count_list (xs @ ys) x = count_list xs x + count_list ys x"
  by (induction xs) simp_all

lemma count_create_task:
  "count_list (map EvCreateTask ns) (EvSleep n) = 0"
  "count_list (map EvCreateTask ns) (EvConnect a) = 0"
  by (induction ns; simp)+

lemma exec_step_session_events:
  "\<exists>evs. trace (exec_step s w) = trace w @ evs
          \<and> count_list evs (EvSleep 5) = 0 \<and> count_list evs (EvConnect a) = 0"
proof (cases s)
  case (LogTick fault now)
  show ?thesis
    unfolding LogTick exec_step.simps log_tick_trace
    by (cases fault) (simp_all add: count_list_append)
next
  case (DisplayTick raised ts)
  show ?thesis
    unfolding DisplayTick
    by (auto simp: display_tick_def split: option.splits sum.splits)
qed simp_all

lemma exec_steps_session_events:
  "\<exists>evs. trace (exec_steps steps w) = trace w @ evs
          \<and> count_list evs (EvSleep 5) = 0 \<and> count_list evs (EvConnect a) = 0"
proof (induction steps arbitrary: w)
  case Nil
  show ?case by (simp add: exec_steps_def)
next
  case (Cons s steps)
  obtain evs1 where 1: "trace (exec_step s w) = trace w @ evs1"
      "count_list evs1 (EvSleep 5) = 0" "count_list evs1 (EvConnect a) = 0"
    using exec_step_session_events by blast
  obtain evs2 where 2: "trace (exec_steps steps (exec_step s w)) = trace (exec_step s w) @ evs2"
      "count_list evs2 (EvSleep 5) = 0" "count_list evs2 (EvConnect a) = 0"
    using Cons.IH by blast
  have "trace (exec_steps (s # steps) w) = trace w @ (evs1 @ evs2)"
    using 1(1) 2(1) by (simp add: exec_steps_def)
  moreover have "count_list (evs1 @ evs2) (EvSleep 5) = 0"
      "count_list (evs1 @ evs2) (EvConnect a) = 0"
    using 1 2 by (simp_all add: count_list_append)
  ultimately show ?case by blast
qed

lemma world_session_start [simp]:
  "telemetry_data (session_start seen w) = telemetry_data w"
  "error_list (session_start seen w) = error_list w"
  "filename (session_start seen w) = filename w"
  "files (session_start seen w) = files w"
  "trace (session_start seen w)
     = trace w @ [EvConnect system_address, EvPrint ''Connecting to drone...''] @
       (if seen then [EvPrint connected_message] else []) @ map EvCreateTask task_names"
  by (simp_all add: session_start_def)

lemma handled_simps [simp]:
  "handled [] w = w"
  "handled (a # as) w = handled as (attempt_handled a w)"
  "handled (as @ bs) w = handled bs (handled as w)"
  by (simp_all add: handled_def)

lemma run_eq:
  "run levels as seen w
     = (if length as < levels then Running (session_start seen (handled as w))
        else Raised recursion_error (handled (take levels as) w))"
proof (induction as arbitrary: levels w)
  case Nil
  show ?case by (simp add: session_start_def)
next
  case (Cons a as)
  show ?case
  proof (cases levels)
    case 0
    then show ?thesis by (cases a) simp_all
  next
    case (Suc l)
    have "run levels (a # as) seen w = run l as seen (attempt_handled a w)"
      unfolding Suc by (cases a) simp_all
    then show ?thesis
      unfolding Cons.IH Suc by simp
  qed
qed

lemma attempt_handled_world:
  "filename (attempt_handled a w) = filename w"
  "telemetry_data (attempt_handled a w)
     = assign (telemetry_data w) (concat (map step_updates (attempt_steps a)))"
  by (cases a; simp add: world_exec_steps assign_def)+

lemma attempt_handled_error:
  "\<exists>el. error_list (attempt_handled a w) = add_error (fst (attempt_error a)) (snd (attempt_error a)) el"
  by (cases a) auto

lemma handled_filename: "filename (handled as w) = filename w"
  by (induction as arbitrary: w) (simp_all add: attempt_handled_world)

lemma handled_store:
  "telemetry_data (handled as w)
     = assign (telemetry_data w) (concat (map step_updates (concat (map attempt_steps as))))"
  by (induction as arbitrary: w) (simp_all add: attempt_handled_world assign_append assign_def)

lemma handled_last_error:
  assumes "as \<noteq> []"
  shows "error_list (handled as w) \<noteq> []"
    and "last (error_list (handled as w)) = error_entry (attempt_error (last as))"
proof -
  obtain bs a where as: "as = bs @ [a]"
    using assms by (cases as rule: rev_cases) auto
  obtain el where "error_list (attempt_handled a (handled bs w))
                     = add_error (fst (attempt_error a)) (snd (attempt_error a)) el"
    using attempt_handled_error by blast
  then show "error_list (handled as w) \<noteq> []"
    and "last (error_list (handled as w)) = error_entry (attempt_error (last as))"
    unfolding as by (simp_all add: add_error_last)
qed

lemma handled_connect_phase:
  "list_all connect_phase as \<Longrightarrow>
   error_list (handled as w) = add_errors (map attempt_error as) (error_list w)
   \<and> telemetry_data (handled as w) = telemetry_data w
   \<and> files (handled as w) = files w"
proof (induction as arbitrary: w)
  case Nil
  show ?case by simp
next
  case (Cons a as)
  then show ?case by (cases a) simp_all
qed

lemma attempt_handled_events:
  "\<exists>evs. trace (attempt_handled a w) = trace w @ evs
          \<and> count_list evs (EvSleep 5) = 1 \<and> count_list evs (EvConnect system_address) = 1"
proof (cases a)
  case (GatherRaises seen steps e ts)
  let ?launched = "launch (await_connected seen (connect w))"
  obtain sv where sv: "trace (exec_steps steps ?launched) = trace ?launched @ sv"
      "count_list sv (EvSleep 5) = 0" "count_list sv (EvConnect system_address) = 0"
    using exec_steps_session_events by blast
  let ?evs = "[EvConnect system_address, EvPrint ''Connecting to drone...''] @
              (if seen then [EvPrint connected_message] else []) @
              map EvCreateTask task_names @ sv @ [EvSleep 5]"
  have "trace (attempt_handled a w) = trace w @ ?evs"
    unfolding GatherRaises using sv(1) by simp
  moreover have "count_list ?evs (EvSleep 5) = 1" "count_list ?evs (EvConnect system_address) = 1"
    using sv(2,3) by (simp_all add: count_list_append count_create_task)
  ultimately show ?thesis by blast
qed auto

lemma handled_events:
  "\<exists>evs. trace (handled as w) = trace w @ evs
          \<and> count_list evs (EvSleep 5) = length as
          \<and> count_list evs (EvConnect system_address) = length as"
proof (induction as arbitrary: w)
  case Nil
  show ?case by simp
next
  case (Cons a as)
  obtain evs1 where 1: "trace (attempt_handled a w) = trace w @ evs1"
      "count_list evs1 (EvSleep 5) = 1" "count_list evs1 (EvConnect system_address) = 1"
    using attempt_handled_events by blast
  obtain evs2 where 2:
      "trace (handled as (attempt_handled a w)) = trace (attempt_handled a w) @ evs2"
      "count_list evs2 (EvSleep 5) = length as"
      "count_list evs2 (EvConnect system_address) = length as"
    using Cons.IH by blast
  have "trace (handled (a # as) w) = trace w @ (evs1 @ evs2)"
    using 1(1) 2(1) by simp
  moreover have "count_list (evs1 @ evs2) (EvSleep 5) = length (a # as)"
      "count_list (evs1 @ evs2) (EvConnect system_address) = length (a # as)"
    using 1(2,3) 2(2,3) by (simp_all add: count_list_append)
  ultimately show ?case by blast
qed

text \<open>
  C6. Every attempt of \<^verbatim>\<open>run\<close> that fails, wherever it fails, is handled in the same
  way: one entry, five seconds of sleep, a new call of \<^verbatim>\<open>run\<close>. So \<open>n\<close> failed attempts
  come with \<open>n\<close> sleeps of five seconds and \<open>n\<close> connections, the delay never grows, and
  when the attempts fail before the launch the error log receives exactly their entries.
  But the new call is nested in the handler, and the attempts are not without limit: if
  the failures use up the levels the interpreter allows, the next call raises
  \<^verbatim>\<open>RecursionError\<close>, which leaves \<^verbatim>\<open>run\<close>; the entry point records it as a fatal
  error and the process ends. A link that fails as many times in a row as there are levels
  does this. With fewer failures than levels the tasks are launched after the last one.
\<close>

theorem supervisor_retry_ends_at_recursion_limit:
  "run levels as seen w
     = (if length as < levels then Running (session_start seen (handled as w))
        else Raised recursion_error (handled (take levels as) w))
   \<and> main levels ts as seen w
       = (if length as < levels then Alive (session_start seen (handled as w))
          else Exited (record_error ts (''Fatal error in main: '' @ recursion_error)
                         (handled (take levels as) w)))
   \<and> main levels ts (replicate levels (ConnectRaises e ts')) seen w
       = Exited (record_error ts (''Fatal error in main: '' @ recursion_error)
                   (handled (replicate levels (ConnectRaises e ts')) w))
   \<and> count_list (new_events w (handled as w)) (EvSleep 5) = length as
   \<and> count_list (new_events w (handled as w)) (EvConnect system_address) = length as
   \<and> new_events w (session_start seen w)
       = [EvConnect system_address, EvPrint ''Connecting to drone...''] @
         (if seen then [EvPrint connected_message] else []) @ map EvCreateTask task_names
   \<and> error_list (retry e ts w) = add_error ts (''Main connection error: '' @ e) (error_list w)
   \<and> new_events w (retry e ts w) = [EvSleep 5]
   \<and> (list_all connect_phase as \<longrightarrow>
        error_list (handled as w) = add_errors (map attempt_error as) (error_list w)
      \<and> telemetry_data (handled as w) = telemetry_data w
      \<and> files (handled as w) = files w)"
proof -
  have m: "main l ts bs seen w
       = (if length bs < l then Alive (session_start seen (handled bs w))
          else Exited (record_error ts (''Fatal error in main: '' @ recursion_error)
                         (handled (take l bs) w)))" for l bs
    unfolding main_def run_eq by simp
  obtain evs where evs: "trace (handled as w) = trace w @ evs"
      "count_list evs (EvSleep 5) = length as"
      "count_list evs (EvConnect system_address) = length as"
    using handled_events by blast
  have ne: "new_events w (handled as w) = evs"
    using evs(1) by (rule new_events_append)
  show ?thesis
  proof (intro conjI impI)
    show "run levels as seen w
     = (if length as < levels then Running (session_start seen (handled as w))
        else Raised recursion_error (handled (take levels as) w))"
      by (rule run_eq)
    show "main levels ts as seen w
       = (if length as < levels then Alive (session_start seen (handled as w))
          else Exited (record_error ts (''Fatal error in main: '' @ recursion_error)
                         (handled (take levels as) w)))"
      by (rule m)
    show "main levels ts (replicate levels (ConnectRaises e ts')) seen w
       = Exited (record_error ts (''Fatal error in main: '' @ recursion_error)
                   (handled (replicate levels (ConnectRaises e ts')) w))"
      unfolding m by simp
    show "count_list (new_events w (handled as w)) (EvSleep 5) = length as"
      unfolding ne by (rule evs(2))
    show "count_list (new_events w (handled as w)) (EvConnect system_address) = length as"
      unfolding ne by (rule evs(3))
    show "new_events w (session_start seen w)
       = [EvConnect system_address, EvPrint ''Connecting to drone...''] @
         (if seen then [EvPrint connected_message] else []) @ map EvCreateTask task_names"
      by (rule new_events_append) simp
    show "error_list (retry e ts w) = add_error ts (''Main connection error: '' @ e) (error_list w)"
      by simp
    show "new_events w (retry e ts w) = [EvSleep 5]"
      by (rule new_events_append) simp
    show "error_list (handled as w) = add_errors (map attempt_error as) (error_list w)"
      if "list_all connect_phase as"
      using handled_connect_phase [OF that] by blast
    show "telemetry_data (handled as w) = telemetry_data w" if "list_all connect_phase as"
      using handled_connect_phase [OF that] by blast
    show "files (handled as w) = files w" if "list_all connect_phase as"
      using handled_connect_phase [OF that] by blast
  qed
qed

theorem supervisor_retry_ends_at_recursion_limit_witness:
  "list_all connect_phase
     [ConnectRaises ''e1'' ''12:00:00'', ConnectRaises ''e2'' ''12:00:05'',
      StateRaises ''e3'' ''12:00:10'']
   \<and> main 1000 ''12:00:15''
         [ConnectRaises ''e1'' ''12:00:00'', ConnectRaises ''e2'' ''12:00:05'',
          StateRaises ''e3'' ''12:00:10''] True (module_init ''20240501_120000'' Map.empty)
       = Alive (session_start True
                  (handled [ConnectRaises ''e1'' ''12:00:00'', ConnectRaises ''e2'' ''12:00:05'',
                            StateRaises ''e3'' ''12:00:10'']
                     (module_init ''20240501_120000'' Map.empty)))
   \<and> error_list
         (handled [ConnectRaises ''e1'' ''12:00:00'', ConnectRaises ''e2'' ''12:00:05'',
                   StateRaises ''e3'' ''12:00:10''] (module_init ''20240501_120000'' Map.empty))
       = [''[12:00:00] Main connection error: e1'', ''[12:00:05] Main connection error: e2'',
          ''[12:00:10] Main connection error: e3'']
   \<and> trace
         (session_start True
            (handled [ConnectRaises ''e1'' ''12:00:00'', ConnectRaises ''e2'' ''12:00:05'',
                      StateRaises ''e3'' ''12:00:10'']
               (module_init ''20240501_120000'' Map.empty)))
       = [EvConnect system_address, EvSleep 5,
          EvConnect system_address, EvSleep 5,
          EvConnect system_address, EvPrint ''Connecting to drone...'', EvSleep 5,
          EvConnect system_address, EvPrint ''Connecting to drone...'',
          EvPrint connected_message] @ map EvCreateTask task_names
   \<and> main 3 ''12:00:15''
         [ConnectRaises ''e1'' ''12:00:00'', ConnectRaises ''e2'' ''12:00:05'',
          StateRaises ''e3'' ''12:00:10''] True (module_init ''20240501_120000'' Map.empty)
       = Exited (record_error ''12:00:15'' (''Fatal error in main: '' @ recursion_error)
                  (handled [ConnectRaises ''e1'' ''12:00:00'', ConnectRaises ''e2'' ''12:00:05'',
                            StateRaises ''e3'' ''12:00:10'']
                     (module_init ''20240501_120000'' Map.empty)))
   \<and> error_list
         (record_error ''12:00:15'' (''Fatal error in main: '' @ recursion_error)
            (handled [ConnectRaises ''e1'' ''12:00:00'', ConnectRaises ''e2'' ''12:00:05'',
                      StateRaises ''e3'' ''12:00:10'']
               (module_init ''20240501_120000'' Map.empty)))
       = [''[12:00:00] Main connection error: e1'', ''[12:00:05] Main connection error: e2'',
          ''[12:00:10] Main connection error: e3'',
          ''[12:00:15] Fatal error in main: maximum recursion depth exceeded'']"
proof -
  define as where "as = [ConnectRaises ''e1'' ''12:00:00'', ConnectRaises ''e2'' ''12:00:05'',
      StateRaises ''e3'' ''12:00:10'']"
  define w where "w = module_init ''20240501_120000'' Map.empty"
  have h: "list_all connect_phase as"
    by (simp add: as_def)
  have len: "length as = 3"
    by (simp add: as_def)
  note T = supervisor_retry_ends_at_recursion_limit [of 1000 as True w "''12:00:15''"]
  note T3 = supervisor_retry_ends_at_recursion_limit [of 3 as True w "''12:00:15''"]
  have el: "error_list (handled as w) = add_errors (map attempt_error as) (error_list w)"
    using T h by blast
  have 1: "error_list (handled as w)
       = [''[12:00:00] Main connection error: e1'', ''[12:00:05] Main connection error: e2'',
          ''[12:00:10] Main connection error: e3'']"
    unfolding el by (simp add: as_def w_def module_init_def add_error_def MAX_ERRORS_DISPLAYED_def)
  have "main 1000 ''12:00:15'' as True w
       = (if length as < 1000 then Alive (session_start True (handled as w))
          else Exited (record_error ''12:00:15'' (''Fatal error in main: '' @ recursion_error)
                         (handled (take 1000 as) w)))"
    using T by blast
  then have 2: "main 1000 ''12:00:15'' as True w = Alive (session_start True (handled as w))"
    unfolding len by simp
  have "main 3 ''12:00:15'' as True w
       = (if length as < 3 then Alive (session_start True (handled as w))
          else Exited (record_error ''12:00:15'' (''Fatal error in main: '' @ recursion_error)
                         (handled (take 3 as) w)))"
    using T3 by blast
  then have 3: "main 3 ''12:00:15'' as True w
       = Exited (record_error ''12:00:15'' (''Fatal error in main: '' @ recursion_error)
                   (handled as w))"
    unfolding len using len by simp
  have 4: "trace (session_start True (handled as w))
       = [EvConnect system_address, EvSleep 5,
          EvConnect system_address, EvSleep 5,
          EvConnect system_address, EvPrint ''Connecting to drone...'', EvSleep 5,
          EvConnect system_address, EvPrint ''Connecting to drone...'',
          EvPrint connected_message] @ map EvCreateTask task_names"
    by (simp add: as_def w_def module_init_def)
  have 5: "error_list
         (record_error ''12:00:15'' (''Fatal error in main: '' @ recursion_error) (handled as w))
       = [''[12:00:00] Main connection error: e1'', ''[12:00:05] Main connection error: e2'',
          ''[12:00:10] Main connection error: e3'',
          ''[12:00:15] Fatal error in main: maximum recursion depth exceeded'']"
    by (simp add: 1 add_error_def MAX_ERRORS_DISPLAYED_def recursion_error_def)
  show ?thesis
    using h 1 2 3 4 5 unfolding as_def w_def by blast
qed

section \<open>What a restart keeps\<close>

lemma state_of_run:
  "state_of (run levels as seen w)
     = (if length as < levels then session_start seen (handled as w)
        else handled (take levels as) w)"
  unfolding run_eq by simp

text \<open>
  C7 (as amended). A restart recreates nothing. The dictionary, the error log and the file
  name are created once, when the module is loaded, the name from the clock reading of that
  moment. Through any number of restarts, and whether \<^verbatim>\<open>run\<close> ends with the launch of
  the tasks or with an exception, the file name stays the same, the dictionary holds what
  the fetchers have assigned so far, and the error log is not emptied: after a restart its
  newest entry is the one recorded for the failure that caused the restart.
\<close>

theorem restart_keeps_process_state:
  "filename (state_of (run levels as seen w)) = filename w
   \<and> telemetry_data (state_of (run levels as seen w))
       = assign (telemetry_data w)
           (concat (map step_updates (concat (map attempt_steps (take levels as)))))
   \<and> (as \<noteq> [] \<longrightarrow> 0 < levels \<longrightarrow>
        error_list (state_of (run levels as seen w)) \<noteq> []
      \<and> last (error_list (state_of (run levels as seen w)))
          = error_entry (attempt_error (last (take levels as))))
   \<and> (length as < levels \<longrightarrow>
        run levels as seen w = Running (state_of (run levels as seen w))
      \<and> telemetry_data (state_of (run levels as seen w))
          = assign (telemetry_data w) (concat (map step_updates (concat (map attempt_steps as))))
      \<and> (as \<noteq> [] \<longrightarrow>
           error_list (state_of (run levels as seen w)) \<noteq> []
         \<and> last (error_list (state_of (run levels as seen w)))
             = error_entry (attempt_error (last as))))
   \<and> telemetry_data (retry e ts w) = telemetry_data w
   \<and> filename (retry e ts w) = filename w
   \<and> files (retry e ts w) = files w
   \<and> error_list (retry e ts w) = add_error ts (''Main connection error: '' @ e) (error_list w)
   \<and> filename (module_init start fs) = ''flight_logs/telemetry_log_'' @ start @ ''.csv''
   \<and> telemetry_data (module_init start fs) = initial_telemetry_data
   \<and> error_list (module_init start fs) = []"
proof -
  have fn: "filename (state_of (run levels as seen w)) = filename w"
    unfolding state_of_run by (simp add: handled_filename)
  have td: "telemetry_data (state_of (run levels as seen w))
       = assign (telemetry_data w)
           (concat (map step_updates (concat (map attempt_steps (take levels as)))))"
    unfolding state_of_run by (simp add: handled_store)
  have el: "error_list (state_of (run levels as seen w)) \<noteq> []
      \<and> last (error_list (state_of (run levels as seen w)))
          = error_entry (attempt_error (last (take levels as)))"
    if "as \<noteq> []" "0 < levels"
  proof -
    have ne: "take levels as \<noteq> []" using that by (cases as; cases levels) auto
    show ?thesis
    proof (cases "length as < levels")
      case True
      then show ?thesis
        unfolding state_of_run using handled_last_error [OF that(1), of w] by simp
    next
      case False
      then show ?thesis
        unfolding state_of_run using handled_last_error [OF ne, of w] by simp
    qed
  qed
  have full: "take levels as = as" if "length as < levels"
    using that by simp
  have r: "run levels as seen w = Running (state_of (run levels as seen w))"
    if "length as < levels"
    unfolding run_eq using that by simp
  show ?thesis
  proof (intro conjI impI)
    show "telemetry_data (state_of (run levels as seen w))
          = assign (telemetry_data w) (concat (map step_updates (concat (map attempt_steps as))))"
      if "length as < levels"
      using td full [OF that] by simp
    show "error_list (state_of (run levels as seen w)) \<noteq> []"
      if "length as < levels" "as \<noteq> []"
      using el [OF that(2)] that(1) by simp
    show "last (error_list (state_of (run levels as seen w))) = error_entry (attempt_error (last as))"
      if "length as < levels" "as \<noteq> []"
      using el [OF that(2)] that(1) full [OF that(1)] by simp
    show "error_list (state_of (run levels as seen w)) \<noteq> []" if "as \<noteq> []" "0 < levels"
      using el [OF that] by blast
    show "last (error_list (state_of (run levels as seen w)))
          = error_entry (attempt_error (last (take levels as)))" if "as \<noteq> []" "0 < levels"
      using el [OF that] by blast
    show "run levels as seen w = Running (state_of (run levels as seen w))"
      if "length as < levels"
      using that by (rule r)
  qed (simp_all add: fn td module_init_def)
qed

theorem restart_keeps_process_state_witness:
  "[GatherRaises True [FetchItem (ArmedItem True)] ''boom'' ''12:00:05''] \<noteq> []
   \<and> (0 :: nat) < 1000
   \<and> length [GatherRaises True [FetchItem (ArmedItem True)] ''boom'' ''12:00:05''] < 1000
   \<and> last (error_list (state_of
         (run 1000 [GatherRaises True [FetchItem (ArmedItem True)] ''boom'' ''12:00:05''] True
              (module_init ''20240501_120000'' Map.empty))))
       = ''[12:00:05] Main connection error: boom''
   \<and> filename (state_of
         (run 1000 [GatherRaises True [FetchItem (ArmedItem True)] ''boom'' ''12:00:05''] True
              (module_init ''20240501_120000'' Map.empty)))
       = ''flight_logs/telemetry_log_20240501_120000.csv''
   \<and> dict_get (telemetry_data (state_of
         (run 1000 [GatherRaises True [FetchItem (ArmedItem True)] ''boom'' ''12:00:05''] True
              (module_init ''20240501_120000'' Map.empty)))) ''armed''
       = Some (PStr ''Yes'')"
proof -
  define as where "as = [GatherRaises True [FetchItem (ArmedItem True)] ''boom'' ''12:00:05'']"
  define w where "w = module_init ''20240501_120000'' Map.empty"
  note T = restart_keeps_process_state [of 1000 as True w "[]" "[]" "''20240501_120000''" Map.empty]
  have ne: "as \<noteq> []" by (simp add: as_def)
  have pos: "(0 :: nat) < 1000" by simp
  have len: "length as < 1000" by (simp add: as_def)
  have 1: "last (error_list (state_of (run 1000 as True w))) = error_entry (attempt_error (last as))"
    using T ne len by blast
  have 2: "filename (state_of (run 1000 as True w)) = filename w"
    using T by blast
  have 3: "telemetry_data (state_of (run 1000 as True w))
       = assign (telemetry_data w) (concat (map step_updates (concat (map attempt_steps as))))"
    using T len by blast
  have 4: "filename w = ''flight_logs/telemetry_log_'' @ ''20240501_120000'' @ ''.csv''"
    using T unfolding w_def by blast
  have "last (error_list (state_of (run 1000 as True w)))
          = ''[12:00:05] Main connection error: boom''"
    unfolding 1 by (simp add: as_def error_entry_def)
  moreover have "filename (state_of (run 1000 as True w))
          = ''flight_logs/telemetry_log_20240501_120000.csv''"
    unfolding 2 4 by simp
  moreover have "dict_get (telemetry_data (state_of (run 1000 as True w))) ''armed''
          = Some (PStr ''Yes'')"
    unfolding 3 dict_get_assign
    by (simp add: as_def armed_updates_def latest_update_def)
  ultimately show ?thesis
    using ne pos len unfolding as_def w_def by blast
qed

text \<open>
  After one failed attempt the error log holds an entry and the file name is the one the
  process started with; and what a fetcher stored before the failure of a session is still
  in the dictionary after the restart.
\<close>

theorem restart_recreates_counterexample:
  "run 1000 [ConnectRaises ''timeout'' ''12:00:05''] True
       (module_init ''20240501_120000'' Map.empty)
     = Running (state_of (run 1000 [ConnectRaises ''timeout'' ''12:00:05''] True
                  (module_init ''20240501_120000'' Map.empty)))
   \<and> error_list (state_of (run 1000 [ConnectRaises ''timeout'' ''12:00:05''] True
                 (module_init ''20240501_120000'' Map.empty)))
     = [''[12:00:05] Main connection error: timeout'']
   \<and> filename (state_of (run 1000 [ConnectRaises ''timeout'' ''12:00:05''] True
                 (module_init ''20240501_120000'' Map.empty)))
     = filename (module_init ''20240501_120000'' Map.empty)
   \<and> dict_get (telemetry_data (state_of
         (run 1000 [GatherRaises True [FetchItem (ArmedItem True)] ''boom'' ''12:00:05''] True
              (module_init ''20240501_120000'' Map.empty)))) ''armed''
       = Some (PStr ''Yes'')
   \<and> dict_get initial_telemetry_data ''armed'' = Some (PStr ''N/A'')"
  by (simp add: module_init_def add_error_def MAX_ERRORS_DISPLAYED_def exec_steps_def
        armed_updates_def assign_def dict_get_set initial_telemetry_data_def dict_get_def)

end
